theory Spec2Isabelle
  imports Complex_Main "HOL-Library.AList" "HOL-Library.Log_Nat"
begin

section \<open>JavaScript numbers\<close>

text \<open>
  A JavaScript Number is an IEEE 754 double.  A finite double is represented here by its
  exact rational value; \<open>fl\<close> rounds a rational to the nearest double (ties to even),
  with the gradual underflow of the subnormal range.  NaN and the infinities are outside
  this representation: where the source can produce NaN (a balance read out of range) the
  model carries \<open>None\<close>, and overflow does not occur at the magnitudes of this program
  (amounts of a few SOL, balances in lamports).
\<close>

type_synonym number = rat

definition pow2 :: "int \<Rightarrow> rat" where
  "pow2 e = (if 0 \<le> e then 2 ^ nat e else 1 / 2 ^ nat (- e))"

definition round_half_even :: "rat \<Rightarrow> int" where
  "round_half_even r =
     (let n = \<lfloor>r\<rfloor>; d = r - of_int n
      in if d < 1 / 2 then n else if 1 / 2 < d then n + 1
         else if even n then n else n + 1)"

text \<open>\<open>binade x\<close> is the exponent \<open>k\<close> with \<open>2^k \<le> |x| < 2^(k+1)\<close>, for \<open>x \<noteq> 0\<close>.\<close>

definition binade :: "rat \<Rightarrow> int" where
  "binade x =
     (if 1 \<le> \<bar>x\<bar> then bitlen \<lfloor>\<bar>x\<bar>\<rfloor> - 1
      else - bitlen (\<lceil>1 / \<bar>x\<bar>\<rceil> - 1))"

definition fl :: "rat \<Rightarrow> number" where
  "fl x =
     (if x = 0 then 0
      else let e = max (binade x) (- 1022) - 52
           in of_int (round_half_even (x / pow2 e)) * pow2 e)"

definition fadd :: "number \<Rightarrow> number \<Rightarrow> number" where
  "fadd a b = fl (a + b)"

definition fsub :: "number \<Rightarrow> number \<Rightarrow> number" where
  "fsub a b = fl (a - b)"

definition fdiv :: "number \<Rightarrow> number \<Rightarrow> number" where
  "fdiv a b = fl (a / b)"

text \<open>\<open>parseFloat\<close> of a decimal numeral: the double nearest to the value written.\<close>

definition parseFloat :: "rat \<Rightarrow> number" where
  "parseFloat d = fl d"

text \<open>
  \<open>x.toFixed(9)\<close>, as the value of the decimal string it returns: the integer \<open>n\<close> with
  \<open>n / 10^9\<close> nearest to \<open>x\<close>, the larger one on a tie, taken on the absolute value with
  the sign put back; from \<open>10^21\<close> on the string is the number's own.
\<close>

definition toFixed9 :: "number \<Rightarrow> rat" where
  "toFixed9 x =
     (if 10 ^ 21 \<le> \<bar>x\<bar> then x
      else let n = \<lfloor>\<bar>x\<bar> * 10 ^ 9 + 1 / 2\<rfloor>
           in (if x < 0 then - 1 else 1) * of_int n / 10 ^ 9)"

text \<open>The remainder operator \<open>%\<close> on integers: the sign of the dividend.\<close>

definition js_rem :: "int \<Rightarrow> int \<Rightarrow> int" where
  "js_rem a b = sgn a * (\<bar>a\<bar> mod \<bar>b\<bar>)"

section \<open>The session store (services/sessionManager.js)\<close>

text \<open>
  A JavaScript \<open>Map\<close> with string keys: an association list in insertion order.
  \<open>set\<close> on a key already present keeps its place.
\<close>

type_synonym 'v js_map = "(string \<times> 'v) list"

definition map_get :: "'v js_map \<Rightarrow> string \<Rightarrow> 'v option" where
  "map_get m k = map_of m k"

definition map_has :: "'v js_map \<Rightarrow> string \<Rightarrow> bool" where
  "map_has m k = (map_of m k \<noteq> None)"

definition map_set :: "string \<Rightarrow> 'v \<Rightarrow> 'v js_map \<Rightarrow> 'v js_map" where
  "map_set k v m = AList.update k v m"

definition map_delete :: "string \<Rightarrow> 'v js_map \<Rightarrow> 'v js_map" where
  "map_delete k m = AList.delete k m"

datatype status_tag = StPending | StVerified | StExpired | StNotFound

record authRequest =
  sessionId :: string
  walletAddress :: string
  receiverAddress :: string
  expectedAmount :: number
  status :: status_tag
  createdAt :: int
  expiresAt :: int
  verified :: bool
  signature :: "string option"
  verifiedAt :: "int option"

text \<open>The two module-level maps: \<open>sessions\<close> (verified) and \<open>pendingAuth\<close>.\<close>

record store =
  sessions :: "authRequest js_map"
  pendingAuth :: "authRequest js_map"

definition empty_store :: store where
  "empty_store = \<lparr>sessions = [], pendingAuth = []\<rparr>"

text \<open>
  The environment variables the module reads.  \<open>VERIFICATION_AMOUNT\<close> holds the value
  of the decimal numeral written there and \<open>SESSION_EXPIRY_MINUTES\<close> the integer;
  \<open>None\<close> is an unset (or empty) variable.
\<close>

record env =
  RECEIVER_WALLET_ADDRESS :: "string option"
  VERIFICATION_AMOUNT :: "rat option"
  SESSION_EXPIRY_MINUTES :: "int option"

definition SESSION_EXPIRY :: "env \<Rightarrow> int" where
  "SESSION_EXPIRY e =
     (case SESSION_EXPIRY_MINUTES e of None \<Rightarrow> 15 | Some m \<Rightarrow> m) * 60 * 1000"

datatype error =
    ReceiverNotConfigured   \<comment> \<open>\<open>RECEIVER_WALLET_ADDRESS not configured\<close>\<close>
  | SessionNotFound         \<comment> \<open>\<open>Session not found or expired\<close>\<close>
  | SessionExpired          \<comment> \<open>\<open>Session expired\<close>\<close>

record createResponse =
  cr_sessionId :: string
  cr_receiverAddress :: string
  cr_expectedAmount :: number
  cr_expiresAt :: int

definition baseAmount :: "env \<Rightarrow> number" where
  "baseAmount e =
     parseFloat (case VERIFICATION_AMOUNT e of None \<Rightarrow> 1 / 100000 | Some d \<Rightarrow> d)"

definition uniqueModifier :: "int \<Rightarrow> number" where
  "uniqueModifier now = fdiv (of_int (js_rem now 1000)) 1000000000"

text \<open>
  \<open>createAuthRequest\<close>.  \<open>uuid\<close> is what \<open>uuidv4()\<close> returns; \<open>now1\<close>, \<open>now2\<close>,
  \<open>now3\<close> are the three readings of \<open>Date.now()\<close>, in the order of the source (the
  modifier, \<open>createdAt\<close>, \<open>expiresAt\<close>).  The \<open>message\<close> field of the response, a
  rendering of the amount and the receiver, is left out.  The timer set here is
  \<open>expiryTimer\<close> below.
\<close>

definition createAuthRequest ::
  "env \<Rightarrow> string \<Rightarrow> int \<Rightarrow> int \<Rightarrow> int \<Rightarrow> string \<Rightarrow> store \<Rightarrow> (error + createResponse) \<times> store" where
  "createAuthRequest e uuid now1 now2 now3 wallet st =
     (let amount = parseFloat (toFixed9 (fadd (baseAmount e) (uniqueModifier now1)))
      in case RECEIVER_WALLET_ADDRESS e of
           None \<Rightarrow> (Inl ReceiverNotConfigured, st)
         | Some receiver \<Rightarrow>
             if receiver = [] then (Inl ReceiverNotConfigured, st)
             else
               let req = \<lparr>sessionId = uuid, walletAddress = wallet,
                          receiverAddress = receiver, expectedAmount = amount,
                          status = StPending, createdAt = now2,
                          expiresAt = now3 + SESSION_EXPIRY e, verified = False,
                          signature = None, verifiedAt = None\<rparr>
               in (Inr \<lparr>cr_sessionId = uuid, cr_receiverAddress = receiver,
                        cr_expectedAmount = amount, cr_expiresAt = expiresAt req\<rparr>,
                   st\<lparr>pendingAuth := map_set uuid req (pendingAuth st)\<rparr>))"

text \<open>The callback of the timer that \<open>createAuthRequest\<close> sets for its session.\<close>

definition expiryTimer :: "string \<Rightarrow> store \<Rightarrow> store" where
  "expiryTimer sid st =
     (if map_has (pendingAuth st) sid
      then st\<lparr>pendingAuth := map_delete sid (pendingAuth st)\<rparr> else st)"

record verificationResult =
  vr_verified :: bool
  vr_error :: "string option"

datatype verifyResult =
    VerifyFailure string                    \<comment> \<open>\<open>success: false\<close>, error\<close>
  | VerifySuccess string string string int  \<comment> \<open>sessionId, walletAddress, signature, verifiedAt\<close>

definition failure_reason :: "verificationResult \<Rightarrow> string" where
  "failure_reason vr =
     (case vr_error vr of
        None \<Rightarrow> ''Transaction verification failed''
      | Some msg \<Rightarrow> if msg = [] then ''Transaction verification failed'' else msg)"

text \<open>
  \<open>verifyAuthRequest\<close>; \<open>now\<close> is \<open>Date.now()\<close> at the expiry test and \<open>now'\<close> at the
  assignment of \<open>verifiedAt\<close>.  A thrown error is \<open>Inl\<close>, next to the store it leaves.
\<close>

definition verifyAuthRequest ::
  "int \<Rightarrow> int \<Rightarrow> string \<Rightarrow> string \<Rightarrow> verificationResult \<Rightarrow> store \<Rightarrow> (error + verifyResult) \<times> store" where
  "verifyAuthRequest now now' sid sig vr st =
     (case map_get (pendingAuth st) sid of
        None \<Rightarrow> (Inl SessionNotFound, st)
      | Some req \<Rightarrow>
          if now > expiresAt req
          then (Inl SessionExpired, st\<lparr>pendingAuth := map_delete sid (pendingAuth st)\<rparr>)
          else if \<not> vr_verified vr
          then (Inr (VerifyFailure (failure_reason vr)), st)
          else
            let req' = req\<lparr>status := StVerified, verified := True,
                           signature := Some sig, verifiedAt := Some now'\<rparr>
            in (Inr (VerifySuccess sid (walletAddress req') sig now'),
                st\<lparr>sessions := map_set sid req' (sessions st),
                   pendingAuth := map_delete sid (pendingAuth st)\<rparr>))"

datatype statusView =
    VerifiedView string "string option" "int option"
      \<comment> \<open>walletAddress, signature, verifiedAt\<close>
  | ExpiredView
  | PendingView string int number string
      \<comment> \<open>walletAddress, expiresAt, expectedAmount, receiverAddress\<close>
  | NotFoundView

fun view_status :: "statusView \<Rightarrow> status_tag" where
  "view_status (VerifiedView w s t) = StVerified"
| "view_status ExpiredView = StExpired"
| "view_status (PendingView w x a r) = StPending"
| "view_status NotFoundView = StNotFound"

definition getAuthStatus :: "int \<Rightarrow> string \<Rightarrow> store \<Rightarrow> statusView \<times> store" where
  "getAuthStatus now sid st =
     (case map_get (sessions st) sid of
        Some session \<Rightarrow>
          (VerifiedView (walletAddress session) (signature session) (verifiedAt session), st)
      | None \<Rightarrow>
          (case map_get (pendingAuth st) sid of
             Some req \<Rightarrow>
               if now > expiresAt req
               then (ExpiredView, st\<lparr>pendingAuth := map_delete sid (pendingAuth st)\<rparr>)
               else (PendingView (walletAddress req) (expiresAt req)
                       (expectedAmount req) (receiverAddress req), st)
           | None \<Rightarrow> (NotFoundView, st)))"

text \<open>\<open>invalidateSession\<close> returns \<open>{success: true, message: 'Session invalidated'}\<close>.\<close>

record invalidateResult =
  success :: bool
  message :: string

definition invalidateSession :: "string \<Rightarrow> store \<Rightarrow> invalidateResult \<times> store" where
  "invalidateSession sid st =
     (\<lparr>success = True, message = ''Session invalidated''\<rparr>,
      \<lparr>sessions = map_delete sid (sessions st),
       pendingAuth = map_delete sid (pendingAuth st)\<rparr>)"

text \<open>
  \<open>cleanupExpiredSessions\<close>: the loop over the entries of \<open>pendingAuth\<close>, deleting
  from the map as it goes and counting.
\<close>

fun cleanup_loop ::
  "int \<Rightarrow> (string \<times> authRequest) list \<Rightarrow> authRequest js_map \<Rightarrow> nat \<Rightarrow> authRequest js_map \<times> nat" where
  "cleanup_loop now [] pend cleaned = (pend, cleaned)"
| "cleanup_loop now ((sid, auth) # entries) pend cleaned =
     (if now > expiresAt auth
      then cleanup_loop now entries (map_delete sid pend) (cleaned + 1)
      else cleanup_loop now entries pend cleaned)"

definition cleanupExpiredSessions :: "int \<Rightarrow> store \<Rightarrow> nat \<times> store" where
  "cleanupExpiredSessions now st =
     (case cleanup_loop now (pendingAuth st) (pendingAuth st) 0 of
        (pend, cleaned) \<Rightarrow> (cleaned, st\<lparr>pendingAuth := pend\<rparr>))"

subsection \<open>Sequences of operations\<close>

datatype op =
    Create env string int int int string
  | Verify int int string string verificationResult
  | GetStatus int string
  | Invalidate string
  | Sweep int
  | TimerFires string

fun step :: "store \<Rightarrow> op \<Rightarrow> store" where
  "step st (Create e uuid now1 now2 now3 wallet) =
     snd (createAuthRequest e uuid now1 now2 now3 wallet st)"
| "step st (Verify now now' sid sig vr) = snd (verifyAuthRequest now now' sid sig vr st)"
| "step st (GetStatus now sid) = snd (getAuthStatus now sid st)"
| "step st (Invalidate sid) = snd (invalidateSession sid st)"
| "step st (Sweep now) = snd (cleanupExpiredSessions now st)"
| "step st (TimerFires sid) = expiryTimer sid st"

fun run :: "store \<Rightarrow> op list \<Rightarrow> store" where
  "run st [] = st"
| "run st (x # xs) = run (step st x) xs"

text \<open>
  \<open>uuidv4\<close> draws 122 random bits and is taken never to repeat an identifier of a live
  session: \<open>uuids_fresh st ops\<close> says that each \<open>Create\<close> of \<open>ops\<close>, run from \<open>st\<close>,
  is handed an identifier that is in neither map at that moment.
\<close>

fun uuids_fresh :: "store \<Rightarrow> op list \<Rightarrow> bool" where
  "uuids_fresh st [] = True"
| "uuids_fresh st (x # xs) =
     ((case x of
         Create e uuid now1 now2 now3 wallet \<Rightarrow>
           \<not> map_has (sessions st) uuid \<and> \<not> map_has (pendingAuth st) uuid
       | _ \<Rightarrow> True)
      \<and> uuids_fresh (step st x) xs)"

text \<open>The identifiers handed to the \<open>Create\<close> operations of a sequence.\<close>

fun created_ids :: "op list \<Rightarrow> string list" where
  "created_ids [] = []"
| "created_ids (Create e uuid now1 now2 now3 wallet # xs) = uuid # created_ids xs"
| "created_ids (x # xs) = created_ids xs"

definition partitions_disjoint :: "store \<Rightarrow> bool" where
  "partitions_disjoint st =
     list_all (\<lambda>sid. \<not> map_has (sessions st) sid) (map fst (pendingAuth st))"

section \<open>The ledger matcher (services/solana.js)\<close>

text \<open>
  What the RPC node answers is data of the model.  A failed call (network, node) is
  \<open>Inl\<close> with the message of the exception.  Public keys are their base58 strings;
  \<open>isPublicKey\<close> says which strings the \<open>PublicKey\<close> constructor accepts.  \<open>meta\<close>
  may be null; reading a field of a null \<open>meta\<close>, or the first of no account keys,
  throws a TypeError, whose message is kept as \<open>TypeError\<close>.
\<close>

record tx_meta =
  err :: bool   \<comment> \<open>\<open>meta.err\<close> is not null\<close>
  preBalances :: "number list"
  postBalances :: "number list"

record transaction =
  meta :: "tx_meta option"
  accountKeys :: "string list"
  blockTime :: "int option"
  slot :: int

record ledger =
  connected :: bool
  isPublicKey :: "string \<Rightarrow> bool"
  getSignaturesForAddress :: "string \<Rightarrow> nat \<Rightarrow> string + string list"
  getTransaction :: "string \<Rightarrow> string + transaction option"

definition LAMPORTS_PER_SOL :: number where
  "LAMPORTS_PER_SOL = 1000000000"

fun findIndex :: "('a \<Rightarrow> bool) \<Rightarrow> 'a list \<Rightarrow> nat option" where
  "findIndex P [] = None"
| "findIndex P (x # xs) = (if P x then Some 0 else map_option Suc (findIndex P xs))"

text \<open>\<open>xs[i]\<close>: \<open>undefined\<close> out of range.\<close>

definition at_index :: "'a list \<Rightarrow> nat \<Rightarrow> 'a option" where
  "at_index xs i = (if i < length xs then Some (xs ! i) else None)"

text \<open>
  \<open>(postBalances[i] - preBalances[i]) / LAMPORTS_PER_SOL\<close>; \<open>None\<close> is the NaN that an
  \<open>undefined\<close> balance gives, on which every comparison is false.
\<close>

definition receivedAmount :: "tx_meta \<Rightarrow> nat \<Rightarrow> number option" where
  "receivedAmount m i =
     (case at_index (preBalances m) i of
        None \<Rightarrow> None
      | Some pre \<Rightarrow>
          (case at_index (postBalances m) i of
             None \<Rightarrow> None
           | Some post \<Rightarrow> Some (fdiv (fsub post pre) LAMPORTS_PER_SOL)))"

datatype matchResult =
    MatchFound string number "int option" int
      \<comment> \<open>\<open>found: true\<close>, signature, receivedAmount, blockTime, slot\<close>
  | NoMatch "string option"
      \<comment> \<open>\<open>found: false\<close>, and the error message when there is one\<close>

fun found :: "matchResult \<Rightarrow> bool" where
  "found (MatchFound sig amount bt sl) = True"
| "found (NoMatch e) = False"

definition tolerance_findMatch :: number where
  "tolerance_findMatch = parseFloat (1 / 1000000)"

definition tolerance_verify :: number where
  "tolerance_verify = parseFloat (1 / 10000)"

text \<open>The loop of \<open>checkForIncomingTransaction\<close> over the signatures, newest first.\<close>

fun scan_signatures ::
  "ledger \<Rightarrow> string \<Rightarrow> string \<Rightarrow> number \<Rightarrow> string list \<Rightarrow> string + matchResult" where
  "scan_signatures L expectedSender receiver expected [] = Inr (NoMatch None)"
| "scan_signatures L expectedSender receiver expected (sig # sigs) =
     (case getTransaction L sig of
        Inl e \<Rightarrow> Inl e
      | Inr None \<Rightarrow> scan_signatures L expectedSender receiver expected sigs
      | Inr (Some tx) \<Rightarrow>
          (case meta tx of
             None \<Rightarrow> Inl ''TypeError''
           | Some m \<Rightarrow>
               if err m then scan_signatures L expectedSender receiver expected sigs
               else
                 (case accountKeys tx of
                    [] \<Rightarrow> Inl ''TypeError''
                  | sender # others \<Rightarrow>
                      if sender \<noteq> expectedSender
                      then scan_signatures L expectedSender receiver expected sigs
                      else
                        (case findIndex (\<lambda>key. key = receiver) (accountKeys tx) of
                           None \<Rightarrow> scan_signatures L expectedSender receiver expected sigs
                         | Some i \<Rightarrow>
                             (case receivedAmount m i of
                                None \<Rightarrow>
                                  scan_signatures L expectedSender receiver expected sigs
                              | Some received \<Rightarrow>
                                  if \<bar>fsub received expected\<bar> < tolerance_findMatch
                                  then Inr (MatchFound sig received (blockTime tx) (slot tx))
                                  else scan_signatures L expectedSender receiver
                                         expected sigs)))))"

text \<open>The body of the \<open>try\<close> block, and the function with its \<open>catch\<close>.\<close>

definition checkForIncomingTransaction_try ::
  "ledger \<Rightarrow> string \<Rightarrow> string \<Rightarrow> number \<Rightarrow> string + matchResult" where
  "checkForIncomingTransaction_try L expectedSender receiver expected =
     (if \<not> connected L then Inl ''Solana connection not initialized''
      else if \<not> isPublicKey L receiver then Inl ''Invalid public key input''
      else
        (case getSignaturesForAddress L receiver 20 of
           Inl e \<Rightarrow> Inl e
         | Inr sigs \<Rightarrow> scan_signatures L expectedSender receiver expected sigs))"

definition checkForIncomingTransaction ::
  "ledger \<Rightarrow> string \<Rightarrow> string \<Rightarrow> number \<Rightarrow> matchResult" where
  "checkForIncomingTransaction L expectedSender receiver expected =
     (case checkForIncomingTransaction_try L expectedSender receiver expected of
        Inl e \<Rightarrow> NoMatch (Some e)
      | Inr r \<Rightarrow> r)"

text \<open>
  \<open>verifyTransaction\<close> returns the object that \<open>verifyAuthRequest\<close> reads: its
  \<open>verified\<close> and \<open>error\<close> fields (the other fields are read by nobody).  The
  amount-mismatch message is kept without the two amounts it prints.
\<close>

definition rejected :: "string \<Rightarrow> verificationResult" where
  "rejected msg = \<lparr>vr_verified = False, vr_error = Some msg\<rparr>"

definition verifyTransaction_try ::
  "ledger \<Rightarrow> string \<Rightarrow> string \<Rightarrow> string \<Rightarrow> number \<Rightarrow> string + verificationResult" where
  "verifyTransaction_try L sig fromAddress toAddress expected =
     (if \<not> connected L then Inl ''Solana connection not initialized''
      else
        (case getTransaction L sig of
           Inl e \<Rightarrow> Inl e
         | Inr None \<Rightarrow> Inr (rejected ''Transaction not found or not yet confirmed'')
         | Inr (Some tx) \<Rightarrow>
             (case meta tx of
                None \<Rightarrow> Inl ''TypeError''
              | Some m \<Rightarrow>
                  if err m then Inr (rejected ''Transaction failed on chain'')
                  else if \<not> isPublicKey L fromAddress \<or> \<not> isPublicKey L toAddress
                  then Inl ''Invalid public key input''
                  else
                    (case findIndex (\<lambda>key. key = fromAddress) (accountKeys tx) of
                       None \<Rightarrow> Inr (rejected ''Sender or receiver not found in transaction'')
                     | Some fromIndex \<Rightarrow>
                         (case findIndex (\<lambda>key. key = toAddress) (accountKeys tx) of
                            None \<Rightarrow>
                              Inr (rejected ''Sender or receiver not found in transaction'')
                          | Some toIndex \<Rightarrow>
                              (case receivedAmount m toIndex of
                                 None \<Rightarrow> Inr (rejected ''Amount mismatch'')
                               | Some received \<Rightarrow>
                                   if \<bar>fsub received expected\<bar> \<le> tolerance_verify
                                   then Inr \<lparr>vr_verified = True, vr_error = None\<rparr>
                                   else Inr (rejected ''Amount mismatch'')))))))"

definition verifyTransaction ::
  "ledger \<Rightarrow> string \<Rightarrow> string \<Rightarrow> string \<Rightarrow> number \<Rightarrow> verificationResult" where
  "verifyTransaction L sig fromAddress toAddress expected =
     (case verifyTransaction_try L sig fromAddress toAddress expected of
        Inl e \<Rightarrow> rejected e
      | Inr r \<Rightarrow> r)"

text \<open>
  The words of the specification for a match: the transaction did not fail, its first
  signer is the expected sender, the receiver is one of its accounts, and the receiver's
  balance delta is within the tolerance of the expected amount.
\<close>

definition tx_matches :: "string \<Rightarrow> string \<Rightarrow> number \<Rightarrow> transaction \<Rightarrow> bool" where
  "tx_matches sender receiver expected tx =
     (case meta tx of
        None \<Rightarrow> False
      | Some m \<Rightarrow>
          \<not> err m
          \<and> (case accountKeys tx of [] \<Rightarrow> False | k # ks \<Rightarrow> k = sender)
          \<and> (case findIndex (\<lambda>key. key = receiver) (accountKeys tx) of
               None \<Rightarrow> False
             | Some i \<Rightarrow>
                 (case receivedAmount m i of
                    None \<Rightarrow> False
                  | Some delta \<Rightarrow> \<bar>fsub delta expected\<bar> < tolerance_findMatch)))"

definition sig_matches :: "ledger \<Rightarrow> string \<Rightarrow> string \<Rightarrow> number \<Rightarrow> string \<Rightarrow> bool" where
  "sig_matches L sender receiver expected sig =
     (case getTransaction L sig of
        Inr (Some tx) \<Rightarrow> tx_matches sender receiver expected tx
      | _ \<Rightarrow> False)"

text \<open>
  The node answers for this signature, with nothing or with a transaction whose fields
  the loop can read.
\<close>

definition readable :: "ledger \<Rightarrow> string \<Rightarrow> bool" where
  "readable L sig =
     (case getTransaction L sig of
        Inl e \<Rightarrow> False
      | Inr None \<Rightarrow> True
      | Inr (Some tx) \<Rightarrow>
          (case meta tx of None \<Rightarrow> False | Some m \<Rightarrow> err m \<or> accountKeys tx \<noteq> []))"

section \<open>The routes (routes/auth.js)\<close>

text \<open>
  One request at a time: a handler is a function of the store it finds.  The part of
  the status handler that runs after the ledger has answered is \<open>status_commit\<close>, a
  function of the store it finds then.
\<close>

datatype response =
    BadRequest string            \<comment> \<open>400, \<open>{error}\<close>\<close>
  | NotFound404 string           \<comment> \<open>404, \<open>{error}\<close>\<close>
  | AlreadyVerified statusView   \<comment> \<open>\<open>{success: true, message: 'Already verified', ...authStatus}\<close>\<close>
  | ResultJson nat verifyResult  \<comment> \<open>the HTTP status and the result of \<open>verifyAuthRequest\<close>\<close>
  | CurrentStatus statusView     \<comment> \<open>\<open>{success: false, ...authStatus}\<close>\<close>
  | StatusJson statusView        \<comment> \<open>\<open>res.json(status)\<close>\<close>
  | ServerError error            \<comment> \<open>\<open>next(error)\<close>\<close>

text \<open>A request field that is missing or the empty string is falsy.\<close>

definition truthy :: "string option \<Rightarrow> string option" where
  "truthy field = (case field of None \<Rightarrow> None | Some s \<Rightarrow> if s = [] then None else Some s)"

definition post_verify ::
  "ledger \<Rightarrow> int \<Rightarrow> int \<Rightarrow> int \<Rightarrow> string option \<Rightarrow> string option \<Rightarrow> store \<Rightarrow> response \<times> store" where
  "post_verify L now now' now'' sessionId_field signature_field st =
     (case truthy sessionId_field of
        None \<Rightarrow> (BadRequest ''Session ID is required'', st)
      | Some sid \<Rightarrow>
          (case getAuthStatus now sid st of
             (NotFoundView, st1) \<Rightarrow> (NotFound404 ''Session not found or expired'', st1)
           | (ExpiredView, st1) \<Rightarrow>
               (BadRequest ''Session expired. Please start a new authentication request.'', st1)
           | (VerifiedView w s t, st1) \<Rightarrow> (AlreadyVerified (VerifiedView w s t), st1)
           | (PendingView wallet expires expected receiver, st1) \<Rightarrow>
               (case truthy signature_field of
                  Some sig \<Rightarrow>
                    (case verifyAuthRequest now' now'' sid sig
                            (verifyTransaction L sig wallet receiver expected) st1 of
                       (Inl e, st2) \<Rightarrow> (ServerError e, st2)
                     | (Inr (VerifyFailure msg), st2) \<Rightarrow>
                         (ResultJson 400 (VerifyFailure msg), st2)
                     | (Inr (VerifySuccess i w s t), st2) \<Rightarrow>
                         (ResultJson 200 (VerifySuccess i w s t), st2))
                | None \<Rightarrow>
                    (CurrentStatus (PendingView wallet expires expected receiver), st1))))"

definition status_commit ::
  "statusView \<Rightarrow> matchResult \<Rightarrow> int \<Rightarrow> int \<Rightarrow> string \<Rightarrow> store \<Rightarrow> response \<times> store" where
  "status_commit status_view transactionResult now' now'' sid st =
     (case transactionResult of
        MatchFound sig amount bt sl \<Rightarrow>
          (case verifyAuthRequest now' now'' sid sig
                  \<lparr>vr_verified = True, vr_error = None\<rparr> st of
             (Inr result, st2) \<Rightarrow> (ResultJson 200 result, st2)
           | (Inl e, st2) \<Rightarrow> (StatusJson status_view, st2))
      | NoMatch e \<Rightarrow> (StatusJson status_view, st))"

definition get_status ::
  "ledger \<Rightarrow> int \<Rightarrow> int \<Rightarrow> int \<Rightarrow> string option \<Rightarrow> store \<Rightarrow> response \<times> store" where
  "get_status L now now' now'' sessionId_param st =
     (case truthy sessionId_param of
        None \<Rightarrow> (BadRequest ''Session ID is required'', st)
      | Some sid \<Rightarrow>
          (case getAuthStatus now sid st of
             (PendingView wallet expires expected receiver, st1) \<Rightarrow>
               status_commit (PendingView wallet expires expected receiver)
                 (checkForIncomingTransaction L wallet receiver expected) now' now'' sid st1
           | (terminal, st1) \<Rightarrow> (StatusJson terminal, st1)))"

definition post_logout :: "string option \<Rightarrow> store \<Rightarrow> (string + invalidateResult) \<times> store" where
  "post_logout sessionId_field st =
     (case truthy sessionId_field of
        None \<Rightarrow> (Inl ''Session ID is required'', st)
      | Some sid \<Rightarrow> (case invalidateSession sid st of (r, st1) \<Rightarrow> (Inr r, st1)))"

section \<open>Example data\<close>

text \<open>The Number written \<open>0.000010042\<close>.\<close>

definition amount0 :: number where
  "amount0 = parseFloat (10042 / 1000000000)"

text \<open>
  A node that lists one transaction, \<open>sigP\<close>, in which \<open>alice\<close> pays the fee and the
  receiver's balance goes from 0 to the given number of lamports.
\<close>

definition ledger_paying :: "number \<Rightarrow> ledger" where
  "ledger_paying lamports =
     \<lparr>connected = True, isPublicKey = (\<lambda>key. True),
      getSignaturesForAddress = (\<lambda>address limit. Inr [''sigP'']),
      getTransaction = (\<lambda>sig. Inr (Some
        \<lparr>meta = Some \<lparr>err = False, preBalances = [1000000, 0],
                       postBalances = [994999 - lamports, lamports]\<rparr>,
         accountKeys = [''alice'', ''receiver''], blockTime = Some 1700000000,
         slot = 7\<rparr>))\<rparr>"

definition env0 :: env where
  "env0 = \<lparr>RECEIVER_WALLET_ADDRESS = Some ''receiver'', VERIFICATION_AMOUNT = None,
           SESSION_EXPIRY_MINUTES = None\<rparr>"

definition req0 :: authRequest where
  "req0 = \<lparr>sessionId = ''s1'', walletAddress = ''alice'', receiverAddress = ''receiver'',
           expectedAmount = amount0, status = StPending,
           createdAt = 1000, expiresAt = 901000, verified = False,
           signature = None, verifiedAt = None\<rparr>"

definition store0 :: store where
  "store0 = \<lparr>sessions = [], pendingAuth = [(''s1'', req0)]\<rparr>"

definition accepted :: verificationResult where
  "accepted = \<lparr>vr_verified = True, vr_error = None\<rparr>"

text \<open>\<open>store1\<close>: the store after \<open>s1\<close> has been verified with signature \<open>sigA\<close> at time 5000.\<close>

definition store1 :: store where
  "store1 = snd (verifyAuthRequest 5000 5000 ''s1'' ''sigA'' accepted store0)"

definition ops0 :: "op list" where
  "ops0 = [Create env0 ''s1'' 1042 1042 1042 ''alice'',
           Create env0 ''s2'' 2000 2000 2000 ''bob'',
           GetStatus 3000 ''s1'',
           Verify 5000 5000 ''s1'' ''sigA'' accepted,
           Verify 6000 6000 ''s1'' ''sigA'' accepted,
           TimerFires ''s1'',
           Sweep 1000000,
           Invalidate ''s1'']"

definition ops1 :: "op list" where
  "ops1 = [Create env0 ''s2'' 2000 2000 2000 ''bob'',
           GetStatus 2000000 ''s1'',
           Verify 2000000 2000000 ''s1'' ''sigC'' accepted,
           TimerFires ''s1'',
           Sweep 3000000,
           Invalidate ''s2'']"

definition ledger_down :: ledger where
  "ledger_down = \<lparr>connected = True, isPublicKey = (\<lambda>key. True),
     getSignaturesForAddress = (\<lambda>address limit. Inl ''fetch failed''),
     getTransaction = (\<lambda>sig. Inl ''fetch failed'')\<rparr>"

definition ledger_quiet :: ledger where
  "ledger_quiet = \<lparr>connected = True, isPublicKey = (\<lambda>key. True),
     getSignaturesForAddress = (\<lambda>address limit. Inr [''sigX'', ''sigY'']),
     getTransaction = (\<lambda>sig. if sig = ''sigX'' then Inr None
        else Inr (Some \<lparr>meta = Some \<lparr>err = False, preBalances = [50000, 0],
                          postBalances = [39958, 10042]\<rparr>,
                        accountKeys = [''mallory'', ''receiver''], blockTime = None,
                        slot = 7\<rparr>))\<rparr>"

section \<open>Rounding\<close>

lemma pow2_power_int: "pow2 e = power_int 2 e"
  by (simp add: pow2_def power_int_def power_inverse [symmetric] inverse_eq_divide power_one_over)

lemma pow2_pos: "0 < pow2 e"
  by (simp add: pow2_def)

lemma pow2_diff: "pow2 (a - b) = pow2 a / pow2 b"
  by (simp add: pow2_power_int power_int_diff)

lemma round_choice_err:
  fixes n :: int and r :: rat
  assumes "of_int n \<le> r" and "r < of_int n + 1"
  shows "\<bar>of_int (if r - of_int n < 1 / 2 then n else if 1 / 2 < r - of_int n then n + 1
                   else if even n then n else n + 1) - r\<bar> \<le> 1 / 2"
  using assms by (auto simp: abs_le_iff; linarith)

lemma round_half_even_err: "\<bar>of_int (round_half_even r) - r\<bar> \<le> 1 / 2"
  unfolding round_half_even_def Let_def
  by (rule round_choice_err) linarith+

lemma round_half_even_nonneg: "0 \<le> r \<Longrightarrow> 0 \<le> round_half_even r"
proof -
  assume "0 \<le> r"
  then have "0 \<le> \<lfloor>r\<rfloor>" by simp
  then show ?thesis
    by (auto simp: round_half_even_def Let_def)
qed

lemma binade_le:
  assumes "x \<noteq> 0"
  shows "pow2 (binade x) \<le> \<bar>x\<bar>"
proof (cases "1 \<le> \<bar>x\<bar>")
  case True
  define n where "n = \<lfloor>\<bar>x\<bar>\<rfloor>"
  from True have n: "0 < n" by (simp add: n_def)
  then have "2 ^ nat (bitlen n - 1) \<le> n"
    using bitlen_bounds [of n] by simp
  then have "(of_int (2 ^ nat (bitlen n - 1)) :: rat) \<le> of_int n"
    by (simp only: of_int_le_iff)
  also have "(of_int n :: rat) \<le> \<bar>x\<bar>"
    by (simp add: n_def)
  finally have le: "(2 :: rat) ^ nat (bitlen n - 1) \<le> \<bar>x\<bar>"
    by simp
  from n have "0 < bitlen n"
    using bitlen_eq_zero_iff [of n] bitlen_nonneg [of n] by linarith
  then have "pow2 (bitlen n - 1) = 2 ^ nat (bitlen n - 1)"
    by (simp add: pow2_def)
  with le True show ?thesis
    by (simp add: binade_def n_def)
next
  case False
  define y where "y = 1 / \<bar>x\<bar>"
  define N where "N = \<lceil>y\<rceil>"
  define c where "c = bitlen (N - 1)"
  from False assms have y: "1 < y"
    by (simp add: y_def)
  then have N: "2 \<le> N"
    unfolding N_def by linarith
  then have "N - 1 < 2 ^ nat c"
    using bitlen_bounds [of "N - 1"] by (simp add: c_def)
  then have "N \<le> 2 ^ nat c"
    by simp
  then have "(of_int N :: rat) \<le> of_int (2 ^ nat c)"
    by (simp only: of_int_le_iff)
  then have "(of_int N :: rat) \<le> 2 ^ nat c"
    by (simp only: of_int_power of_int_numeral)
  moreover have "y \<le> of_int N"
    by (simp add: N_def)
  ultimately have yle: "y \<le> 2 ^ nat c"
    by (rule order_trans [rotated])
  from N have "0 < N - 1" by simp
  then have cpos: "0 < c"
    using bitlen_eq_zero_iff [of "N - 1"] bitlen_nonneg [of "N - 1"]
    unfolding c_def by linarith
  from y yle have "1 / 2 ^ nat c \<le> 1 / y"
    by (simp add: frac_le)
  also from assms have "1 / y = \<bar>x\<bar>"
    by (simp add: y_def)
  finally have "1 / 2 ^ nat c \<le> \<bar>x\<bar>" .
  moreover from cpos have "pow2 (- c) = 1 / 2 ^ nat c"
    by (simp add: pow2_def)
  ultimately show ?thesis
    using False by (simp add: binade_def c_def N_def y_def)
qed

lemma fl_err_ulp:
  "\<bar>fl x - x\<bar> \<le> pow2 (max (binade x) (- 1022) - 52) / 2"
proof (cases "x = 0")
  case True
  then show ?thesis using pow2_pos [of "max (binade x) (- 1022) - 52"]
    by (simp add: fl_def)
next
  case False
  define p where "p = pow2 (max (binade x) (- 1022) - 52)"
  have p: "0 < p" by (simp add: p_def pow2_pos)
  have "fl x - x = (of_int (round_half_even (x / p)) - x / p) * p"
    using False p by (simp add: fl_def p_def Let_def algebra_simps)
  then have "\<bar>fl x - x\<bar> = \<bar>of_int (round_half_even (x / p)) - x / p\<bar> * p"
    using p by (simp add: abs_mult)
  also have "\<dots> \<le> (1 / 2) * p"
    using round_half_even_err [of "x / p"] p by (intro mult_right_mono) simp_all
  finally show ?thesis by (simp add: p_def)
qed

lemma fl_err: "\<bar>fl x - x\<bar> \<le> \<bar>x\<bar> / 2 ^ 53 + pow2 (- 1075)"
proof (cases "x = 0")
  case True
  then show ?thesis using pow2_pos [of "- 1075"] by (simp add: fl_def)
next
  case False
  have d: "0 < pow2 (- 1075)" by (rule pow2_pos)
  note u = fl_err_ulp [of x]
  show ?thesis
  proof (cases "- 1022 \<le> binade x")
    case True
    then have e: "max (binade x) (- 1022) - 52 = binade x - 52"
      by simp
    have "pow2 (binade x - 52) = pow2 (binade x) / pow2 52"
      by (rule pow2_diff)
    moreover have "pow2 52 = 4503599627370496"
      by (simp add: pow2_def)
    ultimately have "pow2 (binade x - 52) / 2 = pow2 (binade x) / 2 ^ 53"
      by simp
    also have "\<dots> \<le> \<bar>x\<bar> / 2 ^ 53"
      using binade_le [OF False] by (simp add: divide_right_mono)
    finally have "pow2 (max (binade x) (- 1022) - 52) / 2 \<le> \<bar>x\<bar> / 2 ^ 53"
      by (simp only: e)
    with u d show ?thesis by linarith
  next
    case False
    then have e: "max (binade x) (- 1022) - 52 = - 1074"
      by simp
    have "pow2 (- 1074 - 1) = pow2 (- 1074) / pow2 1"
      by (rule pow2_diff)
    moreover have "pow2 1 = 2"
      by (simp add: pow2_def)
    ultimately have "pow2 (- 1074) / 2 = pow2 (- 1075)"
      by simp
    with u have "\<bar>fl x - x\<bar> \<le> pow2 (- 1075)"
      by (simp only: e)
    moreover have "0 \<le> \<bar>x\<bar> / 2 ^ 53" by simp
    ultimately show ?thesis by linarith
  qed
qed

lemma fl_nonneg: "0 \<le> x \<Longrightarrow> 0 \<le> fl x"
  using pow2_pos [of "max (binade x) (- 1022) - 52"]
  by (simp add: fl_def Let_def round_half_even_nonneg)

lemma pow2_tiny: "pow2 (- 1075) \<le> 1 / 10 ^ 30"
  by (simp add: pow2_def)

lemma rounding_chain_lower:
  fixes B U S kk mm d :: rat
  assumes "kk / 1000000000 - B \<le> kk / 9007199254740992000000000 + d"
      "mm / 1000000000 - U \<le> mm / 9007199254740992000000000 + d"
      "B + U - S \<le> (B + U) / 9007199254740992 + d"
      "0 \<le> kk" "kk \<le> 1000000000000000" "0 \<le> mm" "mm \<le> 999" "0 \<le> d"
      "d \<le> 1 / 1000000000000000000000000000000" "0 \<le> B" "0 \<le> U"
  shows "kk + mm \<le> S * 1000000000 + 1 / 2"
  using assms by (simp add: field_simps)

lemma rounding_chain_upper:
  fixes B U S kk mm d :: rat
  assumes "B - kk / 1000000000 \<le> kk / 9007199254740992000000000 + d"
      "U - mm / 1000000000 \<le> mm / 9007199254740992000000000 + d"
      "S - (B + U) \<le> (B + U) / 9007199254740992 + d"
      "0 \<le> kk" "kk \<le> 1000000000000000" "0 \<le> mm" "mm \<le> 999" "0 \<le> d"
      "d \<le> 1 / 1000000000000000000000000000000" "0 \<le> B" "0 \<le> U"
  shows "S * 1000000000 + 1 / 2 < kk + mm + 1"
  using assms by (simp add: field_simps)

lemma amount_exact:
  assumes "0 \<le> k" "k \<le> 10 ^ 15" "0 \<le> m" "m < 1000"
  shows "toFixed9 (fadd (fl (of_int k / 10 ^ 9)) (fdiv (of_int m) 1000000000))
           = (of_int k + of_int m) / 10 ^ 9"
proof -
  define kk :: rat where "kk = of_int k"
  define mm :: rat where "mm = of_int m"
  define B where "B = fl (kk / 10 ^ 9)"
  define U where "U = fl (mm / 1000000000)"
  define S where "S = fl (B + U)"
  define d :: rat where "d = pow2 (- 1075)"
  from assms(1,2) have "(of_int 0 :: rat) \<le> of_int k" "(of_int k :: rat) \<le> of_int (10 ^ 15)"
    by (simp_all only: of_int_le_iff)
  then have kk: "0 \<le> kk" "kk \<le> 1000000000000000"
    by (simp_all add: kk_def)
  have mm: "0 \<le> mm" "mm \<le> 999"
    using assms(3,4) by (simp_all add: mm_def)
  have d: "0 \<le> d" "d \<le> 1 / 1000000000000000000000000000000"
    using pow2_tiny pow2_pos [of "- 1075"] by (simp_all add: d_def)
  have B0: "0 \<le> B" and U0: "0 \<le> U"
    using kk mm by (simp_all add: B_def U_def fl_nonneg)
  then have S0: "0 \<le> S"
    by (simp add: S_def fl_nonneg)
  have "\<bar>B - kk / 10 ^ 9\<bar> \<le> \<bar>kk / 10 ^ 9\<bar> / 2 ^ 53 + d"
    unfolding B_def d_def by (rule fl_err)
  with kk have hB: "B - kk / 1000000000 \<le> kk / 9007199254740992000000000 + d"
      "kk / 1000000000 - B \<le> kk / 9007199254740992000000000 + d"
    by (simp_all add: abs_le_iff)
  have "\<bar>U - mm / 1000000000\<bar> \<le> \<bar>mm / 1000000000\<bar> / 2 ^ 53 + d"
    unfolding U_def d_def by (rule fl_err)
  with mm have hU: "U - mm / 1000000000 \<le> mm / 9007199254740992000000000 + d"
      "mm / 1000000000 - U \<le> mm / 9007199254740992000000000 + d"
    by (simp_all add: abs_le_iff)
  have "\<bar>S - (B + U)\<bar> \<le> \<bar>B + U\<bar> / 2 ^ 53 + d"
    unfolding S_def d_def by (rule fl_err)
  with B0 U0 have hS: "S - (B + U) \<le> (B + U) / 9007199254740992 + d"
      "B + U - S \<le> (B + U) / 9007199254740992 + d"
    by (simp_all add: abs_le_iff)
  have lo: "kk + mm \<le> S * 1000000000 + 1 / 2"
    using hB(2) hU(2) hS(2) kk mm d B0 U0 by (rule rounding_chain_lower)
  have hi: "S * 1000000000 + 1 / 2 < kk + mm + 1"
    using hB(1) hU(1) hS(1) kk mm d B0 U0 by (rule rounding_chain_upper)
  have big: "S < 1000000000000000000000"
    using hi kk mm by (simp add: field_simps)
  have "\<lfloor>S * 1000000000 + 1 / 2\<rfloor> = k + m"
    using lo hi by (intro floor_unique) (simp_all add: kk_def mm_def)
  with S0 big show ?thesis
    by (simp add: toFixed9_def fadd_def fdiv_def S_def B_def U_def kk_def mm_def Let_def abs_if)
qed

lemma js_rem_nonneg: "0 \<le> t \<Longrightarrow> js_rem t 1000 = t mod 1000"
  by (cases "t = 0") (simp_all add: js_rem_def)

section \<open>Properties of the session store\<close>

lemma map_get_delete [simp]:
  "map_get (map_delete k m) k' = (if k' = k then None else map_get m k')"
  by (simp add: map_get_def map_delete_def delete_conv')

lemma map_get_set [simp]:
  "map_get (map_set k v m) k' = (if k' = k then Some v else map_get m k')"
  by (simp add: map_get_def map_set_def update_conv')

lemma map_has_get [simp]: "map_has m k = (map_get m k \<noteq> None)"
  by (simp add: map_has_def map_get_def)

lemma map_delete_idem: "map_delete k (map_delete k m) = map_delete k m"
  by (simp add: map_delete_def delete_idem)

lemma partitions_disjoint_iff:
  "partitions_disjoint st \<longleftrightarrow>
     (\<forall>sid. map_get (pendingAuth st) sid \<noteq> None \<longrightarrow> map_get (sessions st) sid = None)"
  by (auto simp: partitions_disjoint_def list_all_iff map_has_def map_get_def map_of_eq_None_iff)

lemma cleanup_loop_subset:
  "cleanup_loop now es pend c = (pend', c') \<Longrightarrow> map_get pend' k = Some v
     \<Longrightarrow> map_get pend k = Some v"
  by (induction now es pend c rule: cleanup_loop.induct) (auto split: if_splits)

lemma sweep_sessions [simp]: "sessions (snd (cleanupExpiredSessions now st)) = sessions st"
  by (simp add: cleanupExpiredSessions_def split: prod.splits)

lemma sweep_pending:
  "map_get (pendingAuth (snd (cleanupExpiredSessions now st))) k = Some v
     \<Longrightarrow> map_get (pendingAuth st) k = Some v"
  by (auto simp: cleanupExpiredSessions_def split: prod.splits dest: cleanup_loop_subset)

lemma sweep_pending_None:
  "map_get (pendingAuth st) k = None
     \<Longrightarrow> map_get (pendingAuth (snd (cleanupExpiredSessions now st))) k = None"
  using sweep_pending [of now st k] by (cases "map_get (pendingAuth (snd (cleanupExpiredSessions now st))) k") auto

lemmas op_defs = createAuthRequest_def verifyAuthRequest_def getAuthStatus_def
  invalidateSession_def expiryTimer_def Let_def

lemma step_disjoint:
  "partitions_disjoint st \<Longrightarrow> uuids_fresh st [x] \<Longrightarrow> partitions_disjoint (step st x)"
  unfolding partitions_disjoint_iff
  by (cases x) (auto simp: op_defs split: option.splits if_splits dest: sweep_pending)

lemma run_disjoint:
  "partitions_disjoint st \<Longrightarrow> uuids_fresh st ops \<Longrightarrow> partitions_disjoint (run st ops)"
proof (induction ops arbitrary: st)
  case Nil
  then show ?case by simp
next
  case (Cons x xs)
  from Cons.prems(2) have "uuids_fresh st [x]" and rest: "uuids_fresh (step st x) xs"
    by simp_all
  with Cons.prems(1) have "partitions_disjoint (step st x)"
    by (simp only: step_disjoint)
  with rest show ?case using Cons.IH by simp
qed

text \<open>
  C3.  From the empty store, whatever sequence of create, verify, getStatus, invalidate,
  sweep and timer callbacks runs (each create being handed a fresh identifier), no
  session identifier is in both the pending and the verified map.
\<close>

theorem partitions_stay_disjoint:
  assumes "uuids_fresh empty_store ops"
  shows "\<forall>sid. \<not> (map_has (pendingAuth (run empty_store ops)) sid
                   \<and> map_has (sessions (run empty_store ops)) sid)"
proof -
  have "partitions_disjoint empty_store"
    by (simp add: partitions_disjoint_def empty_store_def)
  then have "partitions_disjoint (run empty_store ops)"
    using assms by (rule run_disjoint)
  then show ?thesis
    by (auto simp: partitions_disjoint_iff)
qed

theorem partitions_stay_disjoint_witness:
  "uuids_fresh empty_store ops0
   \<and> (\<forall>sid. \<not> (map_has (pendingAuth (run empty_store ops0)) sid
                   \<and> map_has (sessions (run empty_store ops0)) sid))"
proof -
  have f: "uuids_fresh empty_store ops0"
    by (simp add: ops0_def empty_store_def env0_def accepted_def op_defs SESSION_EXPIRY_def
        map_get_def map_set_def map_delete_def cleanupExpiredSessions_def)
  from partitions_stay_disjoint [OF f] f show ?thesis by blast
qed

text \<open>
  C5.  \<open>verifyAuthRequest\<close> throws \<open>Session not found or expired\<close> when the identifier
  is not in the pending map, leaving the store as it is; when the identifier is pending
  and \<open>now > expiresAt\<close> it throws \<open>Session expired\<close>, and the entry has been deleted
  from the pending map.
\<close>

theorem verifyAuthRequest_errors:
  "(\<not> map_has (pendingAuth st) sid \<longrightarrow>
      verifyAuthRequest now now' sid sig vr st = (Inl SessionNotFound, st))
   \<and> (\<forall>req. map_get (pendingAuth st) sid = Some req \<and> now > expiresAt req \<longrightarrow>
        verifyAuthRequest now now' sid sig vr st
          = (Inl SessionExpired, st\<lparr>pendingAuth := map_delete sid (pendingAuth st)\<rparr>)
        \<and> \<not> map_has (pendingAuth (snd (verifyAuthRequest now now' sid sig vr st))) sid)"
  by (auto simp: verifyAuthRequest_def)

theorem verifyAuthRequest_errors_witness:
  "\<not> map_has (pendingAuth store0) ''nope''
   \<and> verifyAuthRequest 5000 5000 ''nope'' ''sigA'' accepted store0 = (Inl SessionNotFound, store0)
   \<and> map_get (pendingAuth store0) ''s1'' = Some req0 \<and> 901001 > expiresAt req0
   \<and> verifyAuthRequest 901001 901001 ''s1'' ''sigA'' accepted store0
        = (Inl SessionExpired, store0\<lparr>pendingAuth := map_delete ''s1'' (pendingAuth store0)\<rparr>)
   \<and> \<not> map_has (pendingAuth (snd (verifyAuthRequest 901001 901001 ''s1'' ''sigA'' accepted store0))) ''s1''"
proof -
  have a: "\<not> map_has (pendingAuth store0) ''nope''"
    by (simp add: store0_def map_get_def)
  have b: "map_get (pendingAuth store0) ''s1'' = Some req0 \<and> 901001 > expiresAt req0"
    by (simp add: store0_def map_get_def req0_def)
  from a b verifyAuthRequest_errors [of store0 "''nope''" 5000 5000 "''sigA''" accepted]
    verifyAuthRequest_errors [of store0 "''s1''" 901001 901001 "''sigA''" accepted]
  show ?thesis by blast
qed

lemma step_keeps_verified:
  "map_get (sessions st) sid = Some s \<Longrightarrow> map_get (pendingAuth st) sid = None
     \<Longrightarrow> uuids_fresh st [x] \<Longrightarrow> x \<noteq> Invalidate sid
     \<Longrightarrow> map_get (sessions (step st x)) sid = Some s
         \<and> map_get (pendingAuth (step st x)) sid = None"
  by (cases x) (auto simp: op_defs sweep_pending_None split: option.splits if_splits)

lemma run_keeps_verified:
  "map_get (sessions st) sid = Some s \<Longrightarrow> map_get (pendingAuth st) sid = None
     \<Longrightarrow> uuids_fresh st ops \<Longrightarrow> Invalidate sid \<notin> set ops
     \<Longrightarrow> map_get (sessions (run st ops)) sid = Some s"
proof (induction ops arbitrary: st)
  case Nil
  then show ?case by simp
next
  case (Cons x xs)
  from Cons.prems have "uuids_fresh st [x]" "x \<noteq> Invalidate sid" by auto
  with Cons.prems(1,2)
  have "map_get (sessions (step st x)) sid = Some s \<and> map_get (pendingAuth (step st x)) sid = None"
    by (rule step_keeps_verified)
  with Cons.prems(3,4) show ?case using Cons.IH [of "step st x"] by simp
qed

lemma step_keeps_absent:
  "map_get (sessions st) sid = None \<Longrightarrow> map_get (pendingAuth st) sid = None
     \<Longrightarrow> sid \<notin> set (created_ids [x])
     \<Longrightarrow> map_get (sessions (step st x)) sid = None
         \<and> map_get (pendingAuth (step st x)) sid = None"
  by (cases x) (auto simp: op_defs sweep_pending_None split: option.splits if_splits)

lemma created_ids_Cons: "sid \<notin> set (created_ids (x # xs))
   \<Longrightarrow> sid \<notin> set (created_ids [x]) \<and> sid \<notin> set (created_ids xs)"
  by (cases x) auto

lemma run_keeps_absent:
  "map_get (sessions st) sid = None \<Longrightarrow> map_get (pendingAuth st) sid = None
     \<Longrightarrow> sid \<notin> set (created_ids ops)
     \<Longrightarrow> map_get (sessions (run st ops)) sid = None
         \<and> map_get (pendingAuth (run st ops)) sid = None"
proof (induction ops arbitrary: st)
  case Nil
  then show ?case by simp
next
  case (Cons x xs)
  from created_ids_Cons [OF Cons.prems(3)]
  have a: "sid \<notin> set (created_ids [x])" and b: "sid \<notin> set (created_ids xs)"
    by blast+
  from Cons.prems(1,2) a
  have "map_get (sessions (step st x)) sid = None \<and> map_get (pendingAuth (step st x)) sid = None"
    by (rule step_keeps_absent)
  with b show ?case using Cons.IH [of "step st x"] by simp
qed

text \<open>
  C4.  In a store whose partitions are disjoint, \<open>getAuthStatus\<close> returns the verified
  view for an identifier in the verified map; the pending view (walletAddress,
  expiresAt, expectedAmount, receiverAddress) for one in the pending map with
  \<open>now \<le> expiresAt\<close>; for one in the pending map with \<open>now > expiresAt\<close> it returns
  expired and deletes the entry, so that every later call returns not_found; and it
  returns not_found for an identifier in neither map, which is the case of every
  identifier that no create was ever handed.
\<close>
theorem getAuthStatus_cases:
  assumes "partitions_disjoint st"
  shows "(\<forall>s. map_get (sessions st) sid = Some s \<longrightarrow>
            getAuthStatus now sid st
              = (VerifiedView (walletAddress s) (signature s) (verifiedAt s), st))
    \<and> (\<forall>r. map_get (pendingAuth st) sid = Some r \<and> now \<le> expiresAt r \<longrightarrow>
            getAuthStatus now sid st
              = (PendingView (walletAddress r) (expiresAt r) (expectedAmount r)
                   (receiverAddress r), st))
    \<and> (\<forall>r. map_get (pendingAuth st) sid = Some r \<and> now > expiresAt r \<longrightarrow>
            getAuthStatus now sid st
              = (ExpiredView, st\<lparr>pendingAuth := map_delete sid (pendingAuth st)\<rparr>)
            \<and> \<not> map_has (pendingAuth (snd (getAuthStatus now sid st))) sid
            \<and> (\<forall>later. getAuthStatus later sid (snd (getAuthStatus now sid st))
                         = (NotFoundView, snd (getAuthStatus now sid st))))
    \<and> (\<not> map_has (sessions st) sid \<and> \<not> map_has (pendingAuth st) sid \<longrightarrow>
            getAuthStatus now sid st = (NotFoundView, st))
    \<and> (\<forall>ops. sid \<notin> set (created_ids ops) \<longrightarrow>
            fst (getAuthStatus now sid (run empty_store ops)) = NotFoundView)"
proof -
  have never: "fst (getAuthStatus now sid (run empty_store ops)) = NotFoundView"
    if "sid \<notin> set (created_ids ops)" for ops
  proof -
    have "map_get (sessions empty_store) sid = None" "map_get (pendingAuth empty_store) sid = None"
      by (simp_all add: empty_store_def map_get_def)
    then have "map_get (sessions (run empty_store ops)) sid = None
         \<and> map_get (pendingAuth (run empty_store ops)) sid = None"
      using that by (rule run_keeps_absent)
    then show ?thesis by (simp add: getAuthStatus_def)
  qed
  from assms have dis: "\<And>r. map_get (pendingAuth st) sid = Some r \<Longrightarrow> map_get (sessions st) sid = None"
    by (simp add: partitions_disjoint_iff)
  show ?thesis
    using never by (auto simp: getAuthStatus_def dis)
qed

theorem getAuthStatus_cases_witness:
  "partitions_disjoint store0 \<and> partitions_disjoint store1
   \<and> map_get (sessions store1) ''s1''
        = Some (req0\<lparr>status := StVerified, verified := True, signature := Some ''sigA'',
                     verifiedAt := Some 5000\<rparr>)
   \<and> getAuthStatus 999999 ''s1'' store1
        = (VerifiedView ''alice'' (Some ''sigA'') (Some 5000), store1)
   \<and> map_get (pendingAuth store0) ''s1'' = Some req0 \<and> 3000 \<le> expiresAt req0
   \<and> getAuthStatus 3000 ''s1'' store0
        = (PendingView ''alice'' 901000 amount0 ''receiver'', store0)
   \<and> 901001 > expiresAt req0
   \<and> getAuthStatus 901001 ''s1'' store0 = (ExpiredView, empty_store)
   \<and> getAuthStatus 901002 ''s1'' (snd (getAuthStatus 901001 ''s1'' store0))
        = (NotFoundView, empty_store)
   \<and> \<not> map_has (sessions store0) ''s9'' \<and> \<not> map_has (pendingAuth store0) ''s9''
   \<and> getAuthStatus 3000 ''s9'' store0 = (NotFoundView, store0)
   \<and> ''s9'' \<notin> set (created_ids ops0)
   \<and> fst (getAuthStatus 3000 ''s9'' (run empty_store ops0)) = NotFoundView"
proof -
  have s1: "store1 = \<lparr>sessions = [(''s1'', req0\<lparr>status := StVerified, verified := True,
               signature := Some ''sigA'', verifiedAt := Some 5000\<rparr>)], pendingAuth = []\<rparr>"
    by (simp add: store1_def store0_def verifyAuthRequest_def map_get_def map_set_def
        map_delete_def req0_def accepted_def)
  have d0: "partitions_disjoint store0" and d1: "partitions_disjoint store1"
    by (simp_all add: s1 partitions_disjoint_def store0_def map_get_def)
  have v: "map_get (sessions store1) ''s1''
        = Some (req0\<lparr>status := StVerified, verified := True, signature := Some ''sigA'',
                     verifiedAt := Some 5000\<rparr>)"
    by (simp add: s1 map_get_def)
  have p: "map_get (pendingAuth store0) ''s1'' = Some req0" "3000 \<le> expiresAt req0"
      "901001 > expiresAt req0"
    by (simp_all add: store0_def map_get_def req0_def)
  have n: "\<not> map_has (sessions store0) ''s9''" "\<not> map_has (pendingAuth store0) ''s9''"
    by (simp_all add: store0_def map_get_def)
  have c: "''s9'' \<notin> set (created_ids ops0)"
    by (simp add: ops0_def)
  have e: "store0\<lparr>pendingAuth := map_delete ''s1'' (pendingAuth store0)\<rparr> = empty_store"
    by (simp add: store0_def empty_store_def map_delete_def)
  have r: "walletAddress req0 = ''alice''" "expiresAt req0 = 901000"
     "expectedAmount req0 = amount0" "receiverAddress req0 = ''receiver''"
    by (simp_all add: req0_def)
  note T1 = getAuthStatus_cases [OF d1, of "''s1''" 999999]
  note T2 = getAuthStatus_cases [OF d0, of "''s1''" 3000]
  note T3 = getAuthStatus_cases [OF d0, of "''s1''" 901001]
  note T4 = getAuthStatus_cases [OF d0, of "''s9''" 3000]
  from T1 v have "getAuthStatus 999999 ''s1'' store1
        = (VerifiedView (walletAddress (req0\<lparr>status := StVerified, verified := True,
             signature := Some ''sigA'', verifiedAt := Some 5000\<rparr>))
            (signature (req0\<lparr>status := StVerified, verified := True,
             signature := Some ''sigA'', verifiedAt := Some 5000\<rparr>))
            (verifiedAt (req0\<lparr>status := StVerified, verified := True,
             signature := Some ''sigA'', verifiedAt := Some 5000\<rparr>)), store1)"
    by blast
  then have A: "getAuthStatus 999999 ''s1'' store1
        = (VerifiedView ''alice'' (Some ''sigA'') (Some 5000), store1)"
    by (simp add: req0_def)
  from T2 p have "getAuthStatus 3000 ''s1'' store0
        = (PendingView (walletAddress req0) (expiresAt req0) (expectedAmount req0)
             (receiverAddress req0), store0)"
    by blast
  then have B: "getAuthStatus 3000 ''s1'' store0
        = (PendingView ''alice'' 901000 amount0 ''receiver'', store0)"
    by (simp add: r)
  from T3 p have C0: "getAuthStatus 901001 ''s1'' store0
        = (ExpiredView, store0\<lparr>pendingAuth := map_delete ''s1'' (pendingAuth store0)\<rparr>)"
    and C1: "getAuthStatus 901002 ''s1'' (snd (getAuthStatus 901001 ''s1'' store0))
        = (NotFoundView, snd (getAuthStatus 901001 ''s1'' store0))"
    by blast+
  from C0 e have C: "getAuthStatus 901001 ''s1'' store0 = (ExpiredView, empty_store)"
    by simp
  from C1 have C': "getAuthStatus 901002 ''s1'' (snd (getAuthStatus 901001 ''s1'' store0))
        = (NotFoundView, empty_store)"
    by (simp add: C)
  from T4 n have D: "getAuthStatus 3000 ''s9'' store0 = (NotFoundView, store0)"
    by blast
  from T4 c have D': "fst (getAuthStatus 3000 ''s9'' (run empty_store ops0)) = NotFoundView"
    by blast
  from d0 d1 v A p B C C' n D D' c show ?thesis by blast
qed

text \<open>
  C6.  For a session in the pending map and not expired, \<open>verifyAuthRequest\<close> with
  \<open>verified = false\<close> returns the failure result with the reason of the verification
  result, and leaves the store as it is: a later \<open>getAuthStatus\<close>, up to the expiry
  time, returns the pending view of the session.
\<close>
theorem failed_verification_keeps_pending:
  assumes "partitions_disjoint st"
    and "map_get (pendingAuth st) sid = Some r"
    and "now \<le> expiresAt r"
    and "\<not> vr_verified vr"
  shows "verifyAuthRequest now now' sid sig vr st = (Inr (VerifyFailure (failure_reason vr)), st)
    \<and> (\<forall>msg. vr_error vr = Some msg \<and> msg \<noteq> [] \<longrightarrow> failure_reason vr = msg)
    \<and> (\<forall>later. later \<le> expiresAt r \<longrightarrow>
          getAuthStatus later sid (snd (verifyAuthRequest now now' sid sig vr st))
            = (PendingView (walletAddress r) (expiresAt r) (expectedAmount r)
                 (receiverAddress r), st))"
proof -
  from assms(1,2) have "map_get (sessions st) sid = None"
    by (simp add: partitions_disjoint_iff)
  with assms(2-4) show ?thesis
    by (simp add: verifyAuthRequest_def getAuthStatus_def failure_reason_def)
qed

theorem failed_verification_keeps_pending_witness:
  "partitions_disjoint store0 \<and> map_get (pendingAuth store0) ''s1'' = Some req0
   \<and> 5000 \<le> expiresAt req0 \<and> \<not> vr_verified (rejected ''Amount mismatch'')
   \<and> vr_error (rejected ''Amount mismatch'') = Some ''Amount mismatch''
   \<and> verifyAuthRequest 5000 5000 ''s1'' ''sigB'' (rejected ''Amount mismatch'') store0
       = (Inr (VerifyFailure ''Amount mismatch''), store0)
   \<and> 6000 \<le> expiresAt req0
   \<and> getAuthStatus 6000 ''s1''
        (snd (verifyAuthRequest 5000 5000 ''s1'' ''sigB'' (rejected ''Amount mismatch'') store0))
       = (PendingView ''alice'' 901000 amount0 ''receiver'', store0)"
proof -
  have d0: "partitions_disjoint store0"
    by (simp add: partitions_disjoint_def store0_def map_get_def)
  have p: "map_get (pendingAuth store0) ''s1'' = Some req0"
    by (simp add: store0_def map_get_def)
  have t: "5000 \<le> expiresAt req0" "6000 \<le> expiresAt req0"
    by (simp_all add: req0_def)
  have v: "\<not> vr_verified (rejected ''Amount mismatch'')"
     "vr_error (rejected ''Amount mismatch'') = Some ''Amount mismatch''"
    by (simp_all add: rejected_def)
  have r: "walletAddress req0 = ''alice''" "expiresAt req0 = 901000"
     "expectedAmount req0 = amount0" "receiverAddress req0 = ''receiver''"
    by (simp_all add: req0_def)
  note T = failed_verification_keeps_pending [OF d0 p t(1) v(1), of 5000 "''sigB''"]
  have fr: "failure_reason (rejected ''Amount mismatch'') = ''Amount mismatch''"
    using T v(2) by blast
  from T have "verifyAuthRequest 5000 5000 ''s1'' ''sigB'' (rejected ''Amount mismatch'') store0
       = (Inr (VerifyFailure (failure_reason (rejected ''Amount mismatch''))), store0)"
    by blast
  then have A: "verifyAuthRequest 5000 5000 ''s1'' ''sigB'' (rejected ''Amount mismatch'') store0
       = (Inr (VerifyFailure ''Amount mismatch''), store0)"
    by (simp only: fr)
  from T t(2) have "getAuthStatus 6000 ''s1''
        (snd (verifyAuthRequest 5000 5000 ''s1'' ''sigB'' (rejected ''Amount mismatch'') store0))
       = (PendingView (walletAddress req0) (expiresAt req0) (expectedAmount req0)
             (receiverAddress req0), store0)"
    by blast
  then have B: "getAuthStatus 6000 ''s1''
        (snd (verifyAuthRequest 5000 5000 ''s1'' ''sigB'' (rejected ''Amount mismatch'') store0))
       = (PendingView ''alice'' 901000 amount0 ''receiver'', store0)"
    by (simp only: r)
  from d0 p t v A B show ?thesis by blast
qed

text \<open>
  C10.  A session in the verified map keeps its verified view whatever runs afterwards,
  short of its own invalidation, and \<open>getAuthStatus\<close> returns that view at every time,
  whether or not \<open>expiresAt\<close> has passed; after \<open>invalidateSession\<close> it is not found.
\<close>
theorem verified_never_expires:
  assumes "partitions_disjoint st"
    and "map_get (sessions st) sid = Some s"
    and "uuids_fresh st ops"
    and "Invalidate sid \<notin> set ops"
  shows "(\<forall>now. getAuthStatus now sid (run st ops)
            = (VerifiedView (walletAddress s) (signature s) (verifiedAt s), run st ops))
    \<and> (\<forall>now. fst (getAuthStatus now sid (snd (invalidateSession sid (run st ops))))
            = NotFoundView)"
proof -
  from assms(1,2) have "map_get (pendingAuth st) sid = None"
    by (auto simp: partitions_disjoint_iff)
  with assms(2) have "map_get (sessions (run st ops)) sid = Some s"
    using assms(3,4) by (rule run_keeps_verified)
  then show ?thesis
    by (simp add: getAuthStatus_def invalidateSession_def)
qed

theorem verified_never_expires_witness:
  "partitions_disjoint store1
   \<and> map_get (sessions store1) ''s1''
        = Some (req0\<lparr>status := StVerified, verified := True, signature := Some ''sigA'',
                     verifiedAt := Some 5000\<rparr>)
   \<and> uuids_fresh store1 ops1 \<and> Invalidate ''s1'' \<notin> set ops1
   \<and> expiresAt req0 < 4000000
   \<and> getAuthStatus 4000000 ''s1'' (run store1 ops1)
        = (VerifiedView ''alice'' (Some ''sigA'') (Some 5000), run store1 ops1)
   \<and> fst (getAuthStatus 4000000 ''s1'' (snd (invalidateSession ''s1'' (run store1 ops1))))
        = NotFoundView"
proof -
  have s1: "store1 = \<lparr>sessions = [(''s1'', req0\<lparr>status := StVerified, verified := True,
               signature := Some ''sigA'', verifiedAt := Some 5000\<rparr>)], pendingAuth = []\<rparr>"
    by (simp add: store1_def store0_def verifyAuthRequest_def map_get_def map_set_def
        map_delete_def req0_def accepted_def)
  have d1: "partitions_disjoint store1"
    by (simp add: s1 partitions_disjoint_def)
  have v: "map_get (sessions store1) ''s1''
        = Some (req0\<lparr>status := StVerified, verified := True, signature := Some ''sigA'',
                     verifiedAt := Some 5000\<rparr>)"
    by (simp add: s1 map_get_def)
  have f: "uuids_fresh store1 ops1"
    by (simp add: s1 ops1_def env0_def accepted_def op_defs SESSION_EXPIRY_def
        map_get_def map_set_def map_delete_def cleanupExpiredSessions_def)
  have i: "Invalidate ''s1'' \<notin> set ops1" "expiresAt req0 < 4000000"
    by (simp_all add: ops1_def req0_def)
  note T = verified_never_expires [OF d1 v f i(1)]
  from T have "getAuthStatus 4000000 ''s1'' (run store1 ops1)
        = (VerifiedView (walletAddress (req0\<lparr>status := StVerified, verified := True,
             signature := Some ''sigA'', verifiedAt := Some 5000\<rparr>))
            (signature (req0\<lparr>status := StVerified, verified := True,
             signature := Some ''sigA'', verifiedAt := Some 5000\<rparr>))
            (verifiedAt (req0\<lparr>status := StVerified, verified := True,
             signature := Some ''sigA'', verifiedAt := Some 5000\<rparr>)), run store1 ops1)"
    by blast
  then have A: "getAuthStatus 4000000 ''s1'' (run store1 ops1)
        = (VerifiedView ''alice'' (Some ''sigA'') (Some 5000), run store1 ops1)"
    by (simp add: req0_def)
  from T have B: "fst (getAuthStatus 4000000 ''s1'' (snd (invalidateSession ''s1'' (run store1 ops1))))
        = NotFoundView"
    by blast
  from d1 v f i A B show ?thesis by blast
qed

text \<open>
  C1.  After a successful \<open>verifyAuthRequest\<close> the session is verified.  A
  second \<open>verifyAuthRequest\<close> for it throws \<open>Session not found or expired\<close> and leaves
  the store as it is.  The routes look the status up first: \<open>POST /verify\<close> and
  \<open>GET /status\<close> answer with the stored verified view (walletAddress, signature and
  verifiedAt of the first verification; the view has no sessionId) and leave the store
  as it is; and the commit of a polling match on such a session changes nothing in the
  store.
\<close>
theorem verified_session_reverify:
  assumes "verifyAuthRequest now now' sid sig vr st = (Inr (VerifySuccess sid' w sig' t), st1)"
  shows "verifyAuthRequest n n' sid sig2 vr2 st1 = (Inl SessionNotFound, st1)
    \<and> getAuthStatus n sid st1 = (VerifiedView w (Some sig') (Some t), st1)
    \<and> (sid \<noteq> [] \<longrightarrow>
         post_verify L n n' n'' (Some sid) signature_field st1
           = (AlreadyVerified (VerifiedView w (Some sig') (Some t)), st1))
    \<and> (sid \<noteq> [] \<longrightarrow>
         get_status L n n' n'' (Some sid) st1
           = (StatusJson (VerifiedView w (Some sig') (Some t)), st1))
    \<and> snd (status_commit status_view transactionResult n' n'' sid st1) = st1"
  using assms
  by (auto simp: verifyAuthRequest_def getAuthStatus_def post_verify_def get_status_def
      status_commit_def truthy_def Let_def split: option.splits if_splits matchResult.splits)

theorem verified_session_reverify_counterexample:
  "verifyAuthRequest 5000 5000 ''s1'' ''sigA'' accepted store0
     = (Inr (VerifySuccess ''s1'' ''alice'' ''sigA'' 5000), store1)
   \<and> verifyAuthRequest 6000 6000 ''s1'' ''sigA'' accepted store1 = (Inl SessionNotFound, store1)"
  by (simp add: store1_def store0_def verifyAuthRequest_def map_get_def map_set_def
      map_delete_def req0_def accepted_def)

theorem verified_session_reverify_witness:
  "verifyAuthRequest 5000 5000 ''s1'' ''sigA'' accepted store0
     = (Inr (VerifySuccess ''s1'' ''alice'' ''sigA'' 5000), store1)
   \<and> verifyAuthRequest 6000 6000 ''s1'' ''sigB'' accepted store1 = (Inl SessionNotFound, store1)
   \<and> getAuthStatus 6000 ''s1'' store1
       = (VerifiedView ''alice'' (Some ''sigA'') (Some 5000), store1)
   \<and> post_verify ledger_down 6000 6000 6000 (Some ''s1'') (Some ''sigB'') store1
       = (AlreadyVerified (VerifiedView ''alice'' (Some ''sigA'') (Some 5000)), store1)
   \<and> get_status ledger_down 6000 6000 6000 (Some ''s1'') store1
       = (StatusJson (VerifiedView ''alice'' (Some ''sigA'') (Some 5000)), store1)
   \<and> snd (status_commit (PendingView ''alice'' 901000 amount0 ''receiver'')
            (MatchFound ''sigB'' amount0 None 7) 6000 6000 ''s1'' store1)
       = store1"
proof -
  have first: "verifyAuthRequest 5000 5000 ''s1'' ''sigA'' accepted store0
     = (Inr (VerifySuccess ''s1'' ''alice'' ''sigA'' 5000), store1)"
    by (simp add: store1_def store0_def verifyAuthRequest_def map_get_def map_set_def
        map_delete_def req0_def accepted_def)
  have ne: "''s1'' \<noteq> []" by simp
  from verified_session_reverify [OF first] first ne show ?thesis by blast
qed

lemma scan_skip:
  assumes "readable L sig" and "\<not> sig_matches L s r e sig"
  shows "scan_signatures L s r e (sig # sigs) = scan_signatures L s r e sigs"
proof (cases "getTransaction L sig")
  case (Inl msg)
  with assms(1) show ?thesis by (simp add: readable_def)
next
  case (Inr answer)
  show ?thesis
  proof (cases answer)
    case None
    with Inr show ?thesis by simp
  next
    case (Some tx)
    show ?thesis
    proof (cases "meta tx")
      case None
      with assms(1) Inr Some show ?thesis by (simp add: readable_def)
    next
      case m: (Some m)
      show ?thesis
      proof (cases "err m")
        case True
        with Inr Some m show ?thesis by simp
      next
        case False
        with assms(1) Inr Some m obtain k ks where keys: "accountKeys tx = k # ks"
          by (cases "accountKeys tx") (auto simp: readable_def)
        from assms(2) Inr Some m False keys
        have "k \<noteq> s \<or> findIndex (\<lambda>key. key = r) (k # ks) = None
          \<or> (\<exists>i. findIndex (\<lambda>key. key = r) (k # ks) = Some i
                \<and> (receivedAmount m i = None
                    \<or> (\<exists>d. receivedAmount m i = Some d
                          \<and> \<not> \<bar>fsub d e\<bar> < tolerance_findMatch)))"
          by (auto simp add: sig_matches_def tx_matches_def simp del: findIndex.simps
              split: option.splits)
        with Inr Some m False keys show ?thesis
          by (auto simp del: findIndex.simps split: option.splits)
      qed
    qed
  qed
qed

lemma scan_hit:
  assumes "sig_matches L s r e sig"
  shows "\<exists>a bt sl. scan_signatures L s r e (sig # sigs) = Inr (MatchFound sig a bt sl)"
proof -
  from assms obtain tx where tx: "getTransaction L sig = Inr (Some tx)"
      and match: "tx_matches s r e tx"
    by (auto simp: sig_matches_def split: sum.splits option.splits)
  from match obtain m where m: "meta tx = Some m" "\<not> err m"
    by (auto simp: tx_matches_def split: option.splits)
  from match m obtain ks where keys: "accountKeys tx = s # ks"
    by (cases "accountKeys tx") (auto simp: tx_matches_def)
  from match m keys obtain i d where i: "findIndex (\<lambda>key. key = r) (s # ks) = Some i"
      "receivedAmount m i = Some d" "\<bar>fsub d e\<bar> < tolerance_findMatch"
    by (auto simp add: tx_matches_def simp del: findIndex.simps split: option.splits)
  from tx m keys i show ?thesis by (simp del: findIndex.simps)
qed

lemma scan_no_match:
  "list_all (readable L) sigs \<Longrightarrow> \<not> list_ex (sig_matches L s r e) sigs
     \<Longrightarrow> scan_signatures L s r e sigs = Inr (NoMatch None)"
proof (induction sigs)
  case Nil
  show ?case by simp
next
  case (Cons sig sigs)
  then have "scan_signatures L s r e (sig # sigs) = scan_signatures L s r e sigs"
    by (intro scan_skip) simp_all
  with Cons show ?case by simp
qed

lemma get_status_no_ServerError: "fst (get_status L now now' now'' field st) \<noteq> ServerError e"
  by (auto simp: get_status_def status_commit_def split: option.splits prod.splits
      statusView.splits matchResult.splits sum.splits)

text \<open>
  C8.  \<open>checkForIncomingTransaction\<close> returns \<open>{found: false}\<close> when the node answers
  and no transaction of the window matches; an exception inside it (the ledger cannot be
  reached) is caught and returned as \<open>{found: false, error}\<close>.  For a pending session
  the status route then answers with the pending view and leaves the store as it is,
  and the status route never passes an error on.
\<close>
theorem ledger_failure_is_no_match:
  "(connected L \<and> isPublicKey L r \<and> getSignaturesForAddress L r 20 = Inr sigs
      \<and> list_all (readable L) sigs \<and> \<not> list_ex (sig_matches L w r a) sigs
      \<longrightarrow> checkForIncomingTransaction L w r a = NoMatch None)
   \<and> (\<forall>msg. checkForIncomingTransaction_try L w r a = Inl msg
      \<longrightarrow> checkForIncomingTransaction L w r a = NoMatch (Some msg))
   \<and> (\<forall>msg. connected L \<and> isPublicKey L r \<and> getSignaturesForAddress L r 20 = Inl msg
      \<longrightarrow> checkForIncomingTransaction L w r a = NoMatch (Some msg))
   \<and> (sid \<noteq> [] \<and> getAuthStatus now sid st = (PendingView w x a r, st1)
        \<and> \<not> found (checkForIncomingTransaction L w r a)
      \<longrightarrow> get_status L now now' now'' (Some sid) st = (StatusJson (PendingView w x a r), st)
          \<and> st1 = st)
   \<and> (\<forall>e. fst (get_status L now now' now'' sessionId_param st) \<noteq> ServerError e)"
proof -
  have A: "checkForIncomingTransaction L w r a = NoMatch None"
    if "connected L" "isPublicKey L r" "getSignaturesForAddress L r 20 = Inr sigs"
       "list_all (readable L) sigs" "\<not> list_ex (sig_matches L w r a) sigs"
    using that scan_no_match [of L sigs w r a]
    by (simp add: checkForIncomingTransaction_def checkForIncomingTransaction_try_def)
  have B: "checkForIncomingTransaction L w r a = NoMatch (Some msg)"
    if "checkForIncomingTransaction_try L w r a = Inl msg" for msg
    using that by (simp add: checkForIncomingTransaction_def)
  have C: "checkForIncomingTransaction L w r a = NoMatch (Some msg)"
    if "connected L" "isPublicKey L r" "getSignaturesForAddress L r 20 = Inl msg" for msg
    using that by (simp add: checkForIncomingTransaction_def checkForIncomingTransaction_try_def)
  have D: "get_status L now now' now'' (Some sid) st = (StatusJson (PendingView w x a r), st) \<and> st1 = st"
    if "sid \<noteq> []" "getAuthStatus now sid st = (PendingView w x a r, st1)"
       "\<not> found (checkForIncomingTransaction L w r a)"
  proof -
    from that(2) have "st1 = st"
      by (auto simp: getAuthStatus_def split: option.splits if_splits)
    with that show ?thesis
      by (cases "checkForIncomingTransaction L w r a")
         (simp_all add: get_status_def status_commit_def truthy_def)
  qed
  from A B C D get_status_no_ServerError show ?thesis by blast
qed

theorem ledger_failure_is_no_match_witness:
  "connected ledger_quiet \<and> isPublicKey ledger_quiet ''receiver''
   \<and> getSignaturesForAddress ledger_quiet ''receiver'' 20 = Inr [''sigX'', ''sigY'']
   \<and> list_all (readable ledger_quiet) [''sigX'', ''sigY'']
   \<and> \<not> list_ex (sig_matches ledger_quiet ''alice'' ''receiver'' amount0)
          [''sigX'', ''sigY'']
   \<and> checkForIncomingTransaction ledger_quiet ''alice'' ''receiver'' amount0
       = NoMatch None
   \<and> checkForIncomingTransaction_try ledger_down ''alice'' ''receiver'' amount0
       = Inl ''fetch failed''
   \<and> connected ledger_down \<and> isPublicKey ledger_down ''receiver''
   \<and> getSignaturesForAddress ledger_down ''receiver'' 20 = Inl ''fetch failed''
   \<and> checkForIncomingTransaction ledger_down ''alice'' ''receiver'' amount0
       = NoMatch (Some ''fetch failed'')
   \<and> getAuthStatus 3000 ''s1'' store0
       = (PendingView ''alice'' 901000 amount0 ''receiver'', store0)
   \<and> \<not> found (checkForIncomingTransaction ledger_down ''alice'' ''receiver''
               amount0)
   \<and> get_status ledger_down 3000 3001 3001 (Some ''s1'') store0
       = (StatusJson (PendingView ''alice'' 901000 amount0 ''receiver''),
          store0)"
proof -
  have q: "connected ledger_quiet" "isPublicKey ledger_quiet ''receiver''"
    "getSignaturesForAddress ledger_quiet ''receiver'' 20 = Inr [''sigX'', ''sigY'']"
    "list_all (readable ledger_quiet) [''sigX'', ''sigY'']"
    "\<not> list_ex (sig_matches ledger_quiet ''alice'' ''receiver'' amount0)
          [''sigX'', ''sigY'']"
    by (simp_all add: ledger_quiet_def readable_def sig_matches_def tx_matches_def)
  have d: "connected ledger_down" "isPublicKey ledger_down ''receiver''"
    "getSignaturesForAddress ledger_down ''receiver'' 20 = Inl ''fetch failed''"
    "checkForIncomingTransaction_try ledger_down ''alice'' ''receiver'' amount0
       = Inl ''fetch failed''"
    by (simp_all add: ledger_down_def checkForIncomingTransaction_try_def)
  have p: "getAuthStatus 3000 ''s1'' store0
       = (PendingView ''alice'' 901000 amount0 ''receiver'', store0)"
    by (simp add: getAuthStatus_def store0_def map_get_def req0_def)
  have ne: "''s1'' \<noteq> []" by simp
  note T1 = ledger_failure_is_no_match [of ledger_quiet "''receiver''" "[''sigX'', ''sigY'']"
      "''alice''" "amount0"]
  note T2 = ledger_failure_is_no_match [of ledger_down "''receiver''" _
      "''alice''" "amount0" "''s1''" 3000 store0 901000 store0 3001 3001]
  from T1 q have A: "checkForIncomingTransaction ledger_quiet ''alice'' ''receiver''
       amount0 = NoMatch None"
    by blast
  from T2 d have B: "checkForIncomingTransaction ledger_down ''alice'' ''receiver''
       amount0 = NoMatch (Some ''fetch failed'')"
    by blast
  then have nf: "\<not> found (checkForIncomingTransaction ledger_down ''alice'' ''receiver''
               amount0)"
    by simp
  from T2 ne p nf have C: "get_status ledger_down 3000 3001 3001 (Some ''s1'') store0
       = (StatusJson (PendingView ''alice'' 901000 amount0 ''receiver''),
          store0)"
    by blast
  from q d p A B nf C show ?thesis by blast
qed

section \<open>Properties of the amounts\<close>

lemma createAuthRequest_amount:
  assumes "RECEIVER_WALLET_ADDRESS e = Some receiver" and "receiver \<noteq> []"
  shows "\<exists>resp req.
           createAuthRequest e uuid t t2 t3 wallet st
             = (Inr resp, st\<lparr>pendingAuth := map_set uuid req (pendingAuth st)\<rparr>)
           \<and> cr_expectedAmount resp
               = parseFloat (toFixed9 (fadd (baseAmount e) (uniqueModifier t)))
           \<and> expectedAmount req
               = parseFloat (toFixed9 (fadd (baseAmount e) (uniqueModifier t)))"
  using assms
  by (simp add: createAuthRequest_def Let_def) (rule exI, rule conjI, rule refl, simp)

text \<open>
  C2.  With a receiver configured and a creation time \<open>t \<ge> 0\<close>, \<open>createAuthRequest\<close>
  stores and returns the same \<open>expectedAmount\<close>, the Number
  \<open>parseFloat((baseAmount + (t mod 1000) / 1e9).toFixed(9))\<close>.  When the configured base
  amount is a whole number of lamports, up to \<open>10^15\<close>, this is the Number nearest to the
  exact decimal \<open>base + (t mod 1000) / 10^9\<close>: rounding to nine decimals recovers it from
  the rounding errors of the sum.  The default base \<open>0.00001\<close> is such an amount, and at
  \<open>t mod 1000 = 42\<close> it gives the Number \<open>0.000010042\<close>.  The amount depends on the
  configuration and on \<open>t\<close> alone: every other call at the same millisecond returns it.
\<close>
theorem expectedAmount_formula:
  assumes "RECEIVER_WALLET_ADDRESS e = Some receiver" and "receiver \<noteq> []" and "0 \<le> t"
  shows "\<exists>resp req.
      createAuthRequest e uuid t t2 t3 wallet st
        = (Inr resp, st\<lparr>pendingAuth := map_set uuid req (pendingAuth st)\<rparr>)
      \<and> cr_expectedAmount resp = expectedAmount req
      \<and> expectedAmount req
          = parseFloat (toFixed9 (fadd (baseAmount e) (fdiv (of_int (t mod 1000)) 1000000000)))
      \<and> (\<forall>k. VERIFICATION_AMOUNT e = Some (of_int k / 10 ^ 9) \<and> 0 \<le> k \<and> k \<le> 10 ^ 15 \<longrightarrow>
            expectedAmount req = parseFloat ((of_int k + of_int (t mod 1000)) / 10 ^ 9))
      \<and> (VERIFICATION_AMOUNT e = None \<longrightarrow>
            expectedAmount req = parseFloat ((10000 + of_int (t mod 1000)) / 10 ^ 9))
      \<and> (VERIFICATION_AMOUNT e = None \<and> t mod 1000 = 42 \<longrightarrow>
            expectedAmount req = parseFloat (10042 / 1000000000))
      \<and> (\<forall>uuid' t2' t3' wallet' st'.
            map_sum id cr_expectedAmount
              (fst (createAuthRequest e uuid' t t2' t3' wallet' st'))
              = Inr (expectedAmount req))"
proof -
  from createAuthRequest_amount [OF assms(1,2), of uuid t t2 t3 wallet st]
  obtain resp req where
    c: "createAuthRequest e uuid t t2 t3 wallet st
          = (Inr resp, st\<lparr>pendingAuth := map_set uuid req (pendingAuth st)\<rparr>)"
    and r1: "cr_expectedAmount resp
          = parseFloat (toFixed9 (fadd (baseAmount e) (uniqueModifier t)))"
    and r2: "expectedAmount req
          = parseFloat (toFixed9 (fadd (baseAmount e) (uniqueModifier t)))"
    by blast
  have um: "uniqueModifier t = fdiv (of_int (t mod 1000)) 1000000000"
    using assms(3) by (simp add: uniqueModifier_def js_rem_nonneg)
  have range: "0 \<le> t mod 1000" "t mod 1000 < 1000"
    by simp_all
  have lamports: "expectedAmount req = parseFloat ((of_int k + of_int (t mod 1000)) / 10 ^ 9)"
    if "VERIFICATION_AMOUNT e = Some (of_int k / 10 ^ 9)" "0 \<le> k" "k \<le> 10 ^ 15" for k
  proof -
    from that(1) have "baseAmount e = fl (of_int k / 10 ^ 9)"
      by (simp add: baseAmount_def parseFloat_def)
    then show ?thesis
      using amount_exact [OF that(2,3) range] by (simp only: r2 um)
  qed
  have default: "expectedAmount req = parseFloat ((10000 + of_int (t mod 1000)) / 10 ^ 9)"
    if "VERIFICATION_AMOUNT e = None"
  proof -
    from that have "baseAmount e = fl (of_int 10000 / 10 ^ 9)"
      by (simp add: baseAmount_def parseFloat_def)
    moreover have "(0::int) \<le> 10000" "(10000::int) \<le> 10 ^ 15"
      by simp_all
    ultimately have "expectedAmount req
        = parseFloat ((of_int 10000 + of_int (t mod 1000)) / 10 ^ 9)"
      using amount_exact [OF _ _ range, of 10000] by (simp only: r2 um)
    then show ?thesis by simp
  qed
  have example: "expectedAmount req = parseFloat (10042 / 1000000000)"
    if "VERIFICATION_AMOUNT e = None" "t mod 1000 = 42"
    using default [OF that(1)] that(2) by simp
  have same: "map_sum id cr_expectedAmount
              (fst (createAuthRequest e uuid' t t2' t3' wallet' st'))
              = Inr (expectedAmount req)" for uuid' t2' t3' wallet' st'
    using createAuthRequest_amount [OF assms(1,2), of uuid' t t2' t3' wallet' st'] r2
    by auto
  have g2: "cr_expectedAmount resp = expectedAmount req"
    by (simp only: r1 r2)
  have g3: "expectedAmount req
      = parseFloat (toFixed9 (fadd (baseAmount e) (fdiv (of_int (t mod 1000)) 1000000000)))"
    by (simp only: r2 um)
  have g4: "\<forall>k. VERIFICATION_AMOUNT e = Some (of_int k / 10 ^ 9) \<and> 0 \<le> k \<and> k \<le> 10 ^ 15 \<longrightarrow>
            expectedAmount req = parseFloat ((of_int k + of_int (t mod 1000)) / 10 ^ 9)"
    using lamports by blast
  have g5: "VERIFICATION_AMOUNT e = None \<longrightarrow>
            expectedAmount req = parseFloat ((10000 + of_int (t mod 1000)) / 10 ^ 9)"
    using default by blast
  have g6: "VERIFICATION_AMOUNT e = None \<and> t mod 1000 = 42 \<longrightarrow>
            expectedAmount req = parseFloat (10042 / 1000000000)"
    using example by blast
  have g7: "\<forall>uuid' t2' t3' wallet' st'.
            map_sum id cr_expectedAmount
              (fst (createAuthRequest e uuid' t t2' t3' wallet' st'))
              = Inr (expectedAmount req)"
    using same by blast
  show ?thesis
    by (rule exI [of _ resp], rule exI [of _ req]) (rule conjI c g2 g3 g4 g5 g6 g7)+
qed

theorem expectedAmount_formula_witness:
  "RECEIVER_WALLET_ADDRESS env0 = Some ''receiver'' \<and> ''receiver'' \<noteq> []
   \<and> (0::int) \<le> 1700000000042 \<and> VERIFICATION_AMOUNT env0 = None
   \<and> (1700000000042::int) mod 1000 = 42
   \<and> (\<exists>resp req.
        createAuthRequest env0 ''s1'' 1700000000042 1700000000043 1700000000043 ''alice''
            empty_store
          = (Inr resp, empty_store\<lparr>pendingAuth := map_set ''s1'' req (pendingAuth empty_store)\<rparr>)
        \<and> cr_expectedAmount resp = amount0 \<and> expectedAmount req = amount0)"
proof -
  have h: "RECEIVER_WALLET_ADDRESS env0 = Some ''receiver''" "''receiver'' \<noteq> []"
      "(0::int) \<le> 1700000000042" "VERIFICATION_AMOUNT env0 = None"
      "(1700000000042::int) mod 1000 = 42"
    by (simp_all add: env0_def)
  from expectedAmount_formula [OF h(1,2,3), of "''s1''" 1700000000043 1700000000043
      "''alice''" empty_store]
  obtain resp req where
    "createAuthRequest env0 ''s1'' 1700000000042 1700000000043 1700000000043 ''alice''
            empty_store
          = (Inr resp, empty_store\<lparr>pendingAuth := map_set ''s1'' req (pendingAuth empty_store)\<rparr>)"
    "cr_expectedAmount resp = expectedAmount req"
    "VERIFICATION_AMOUNT env0 = None \<and> (1700000000042::int) mod 1000 = 42 \<longrightarrow>
            expectedAmount req = parseFloat (10042 / 1000000000)"
    by blast
  with h show ?thesis
    unfolding amount0_def by (intro conjI exI [of _ resp] exI [of _ req]) simp_all
qed

lemma tolerances_ordered: "tolerance_findMatch < tolerance_verify"
  by code_simp

lemma delta_10042_within:
  "\<bar>fsub (fdiv (fsub 10042 0) LAMPORTS_PER_SOL) amount0\<bar> < tolerance_findMatch"
  by code_simp

lemma delta_10042_inside:
  "\<bar>fsub (fdiv (fsub 10042 0) LAMPORTS_PER_SOL) amount0\<bar> \<le> tolerance_verify"
  by code_simp

lemma delta_20000_outside:
  "\<not> \<bar>fsub (fdiv (fsub 20000 0) LAMPORTS_PER_SOL) amount0\<bar> < tolerance_findMatch"
  by code_simp

lemma delta_20000_inside:
  "\<bar>fsub (fdiv (fsub 20000 0) LAMPORTS_PER_SOL) amount0\<bar> \<le> tolerance_verify"
  by code_simp

lemma boundary_exact:
  "fsub (fdiv (fsub 110042 0) LAMPORTS_PER_SOL) amount0 = tolerance_verify"
  by code_simp

lemma tolerance_verify_nonneg: "0 \<le> tolerance_verify"
  unfolding tolerance_verify_def parseFloat_def by (rule fl_nonneg) simp

text \<open>
  C7.  For a successful transaction whose first signer is the expected sender
  and in which the receiver's balance delta is \<open>delta\<close>, \<open>checkForIncomingTransaction\<close>
  reports a match iff \<open>|delta - expectedAmount| < 0.000001\<close>, and \<open>verifyTransaction\<close>
  accepts iff \<open>|delta - expectedAmount| \<le> 0.0001\<close>, a bound that is included and is
  strictly wider.  Against the expected amount \<open>0.000010042\<close>, a delta of 10042 lamports
  is inside both tolerances, and a delta of 20000 lamports (\<open>0.00002\<close>) is outside the
  first and inside the second.
\<close>
theorem amount_tolerances:
  assumes "connected L" and "isPublicKey L sender" and "isPublicKey L receiver"
    and "getSignaturesForAddress L receiver 20 = Inr [sig]"
    and "getTransaction L sig = Inr (Some tx)"
    and "meta tx = Some m" and "\<not> err m"
    and "accountKeys tx = sender # others"
    and "findIndex (\<lambda>key. key = receiver) (accountKeys tx) = Some i"
    and "receivedAmount m i = Some delta"
  shows "(found (checkForIncomingTransaction L sender receiver expected)
            \<longleftrightarrow> \<bar>fsub delta expected\<bar> < tolerance_findMatch)
    \<and> (vr_verified (verifyTransaction L sig sender receiver expected)
            \<longleftrightarrow> \<bar>fsub delta expected\<bar> \<le> tolerance_verify)
    \<and> tolerance_findMatch < tolerance_verify
    \<and> \<bar>fsub (fdiv (fsub 10042 0) LAMPORTS_PER_SOL) amount0\<bar> < tolerance_findMatch
    \<and> \<bar>fsub (fdiv (fsub 10042 0) LAMPORTS_PER_SOL) amount0\<bar> \<le> tolerance_verify
    \<and> \<not> \<bar>fsub (fdiv (fsub 20000 0) LAMPORTS_PER_SOL) amount0\<bar> < tolerance_findMatch
    \<and> \<bar>fsub (fdiv (fsub 20000 0) LAMPORTS_PER_SOL) amount0\<bar> \<le> tolerance_verify"
proof -
  from assms(8,9) have ri: "findIndex (\<lambda>key. key = receiver) (sender # others) = Some i"
    by (simp only:)
  have si: "findIndex (\<lambda>key. key = sender) (sender # others) = Some 0"
    by simp
  have A: "found (checkForIncomingTransaction L sender receiver expected)
            \<longleftrightarrow> \<bar>fsub delta expected\<bar> < tolerance_findMatch"
    using assms(1,3,4,5,6,7,8,10) ri
    by (simp add: checkForIncomingTransaction_def checkForIncomingTransaction_try_def
        del: findIndex.simps)
  have B: "vr_verified (verifyTransaction L sig sender receiver expected)
            \<longleftrightarrow> \<bar>fsub delta expected\<bar> \<le> tolerance_verify"
    using assms(1,2,3,5,6,7,8,10) ri si
    by (simp add: verifyTransaction_def verifyTransaction_try_def rejected_def
        del: findIndex.simps)
  from A B tolerances_ordered delta_10042_within delta_10042_inside delta_20000_outside
    delta_20000_inside
  show ?thesis by blast
qed

theorem amount_tolerances_counterexample:
  "vr_verified (verifyTransaction (ledger_paying 20000) ''sigP'' ''alice'' ''receiver'' amount0)
   \<and> receivedAmount \<lparr>err = False, preBalances = [1000000, 0],
         postBalances = [994999 - 110042, 110042]\<rparr> 1
       = Some (fdiv (fsub 110042 0) LAMPORTS_PER_SOL)
   \<and> \<not> \<bar>fsub (fdiv (fsub 110042 0) LAMPORTS_PER_SOL) amount0\<bar> < tolerance_verify
   \<and> vr_verified (verifyTransaction (ledger_paying 110042) ''sigP'' ''alice'' ''receiver'' amount0)"
proof -
  have r: "receivedAmount \<lparr>err = False, preBalances = [1000000, 0],
         postBalances = [994999 - l, l]\<rparr> 1 = Some (fdiv (fsub l 0) LAMPORTS_PER_SOL)" for l
    by (simp add: receivedAmount_def at_index_def)
  have v: "vr_verified (verifyTransaction (ledger_paying l) ''sigP'' ''alice'' ''receiver'' amount0)
      \<longleftrightarrow> \<bar>fsub (fdiv (fsub l 0) LAMPORTS_PER_SOL) amount0\<bar> \<le> tolerance_verify" for l
    by (simp add: verifyTransaction_def verifyTransaction_try_def rejected_def
        ledger_paying_def receivedAmount_def at_index_def)
  have b: "\<bar>fsub (fdiv (fsub 110042 0) LAMPORTS_PER_SOL) amount0\<bar> = tolerance_verify"
    using tolerance_verify_nonneg by (simp only: boundary_exact abs_of_nonneg)
  from v [of 20000] delta_20000_inside
  have c1: "vr_verified (verifyTransaction (ledger_paying 20000) ''sigP'' ''alice'' ''receiver''
      amount0)"
    by blast
  from b have c3: "\<not> \<bar>fsub (fdiv (fsub 110042 0) LAMPORTS_PER_SOL) amount0\<bar> < tolerance_verify"
    and le: "\<bar>fsub (fdiv (fsub 110042 0) LAMPORTS_PER_SOL) amount0\<bar> \<le> tolerance_verify"
    by simp_all
  from v [of 110042] le
  have c4: "vr_verified (verifyTransaction (ledger_paying 110042) ''sigP'' ''alice'' ''receiver''
      amount0)"
    by blast
  from c1 r [of 110042] c3 c4 show ?thesis
    by blast
qed

theorem amount_tolerances_witness:
  "connected (ledger_paying 20000) \<and> isPublicKey (ledger_paying 20000) ''alice''
   \<and> isPublicKey (ledger_paying 20000) ''receiver''
   \<and> getSignaturesForAddress (ledger_paying 20000) ''receiver'' 20 = Inr [''sigP'']
   \<and> \<not> found (checkForIncomingTransaction (ledger_paying 20000) ''alice'' ''receiver'' amount0)
   \<and> vr_verified (verifyTransaction (ledger_paying 20000) ''sigP'' ''alice'' ''receiver'' amount0)
   \<and> found (checkForIncomingTransaction (ledger_paying 10042) ''alice'' ''receiver'' amount0)
   \<and> vr_verified (verifyTransaction (ledger_paying 10042) ''sigP'' ''alice'' ''receiver'' amount0)"
proof -
  define tx where "tx l = \<lparr>meta = Some \<lparr>err = False, preBalances = [1000000, 0],
                       postBalances = [994999 - l, l]\<rparr>,
         accountKeys = [''alice'', ''receiver''], blockTime = Some 1700000000,
         slot = 7\<rparr>" for l :: number
  define m where "m l = \<lparr>err = False, preBalances = [1000000, 0],
                       postBalances = [994999 - l, l]\<rparr>" for l :: number
  have h: "connected (ledger_paying l)" "isPublicKey (ledger_paying l) ''alice''"
    "isPublicKey (ledger_paying l) ''receiver''"
    "getSignaturesForAddress (ledger_paying l) ''receiver'' 20 = Inr [''sigP'']"
    "getTransaction (ledger_paying l) ''sigP'' = Inr (Some (tx l))"
    "meta (tx l) = Some (m l)" "\<not> err (m l)"
    "accountKeys (tx l) = ''alice'' # [''receiver'']"
    "findIndex (\<lambda>key. key = ''receiver'') (accountKeys (tx l)) = Some 1"
    "receivedAmount (m l) 1 = Some (fdiv (fsub l 0) LAMPORTS_PER_SOL)" for l
    by (simp_all add: ledger_paying_def tx_def m_def receivedAmount_def at_index_def)
  note T = amount_tolerances [OF h, of _ amount0]
  from T [of 20000] have "\<not> found (checkForIncomingTransaction (ledger_paying 20000)
      ''alice'' ''receiver'' amount0)"
    "vr_verified (verifyTransaction (ledger_paying 20000) ''sigP'' ''alice'' ''receiver'' amount0)"
    by blast+
  moreover from T [of 10042] have "found (checkForIncomingTransaction (ledger_paying 10042)
      ''alice'' ''receiver'' amount0)"
    "vr_verified (verifyTransaction (ledger_paying 10042) ''sigP'' ''alice'' ''receiver'' amount0)"
    by blast+
  ultimately show ?thesis using h(1-4) [of 20000] by blast
qed

text \<open>
  C9.  \<open>invalidateSession\<close> returns success for every identifier and every store,
  whether the identifier is pending, verified or unknown; afterwards the identifier is
  in neither map; and a second call returns success again and changes nothing more.
\<close>

theorem invalidateSession_always_succeeds:
  "success (fst (invalidateSession sid st)) = True
   \<and> \<not> map_has (sessions (snd (invalidateSession sid st))) sid
   \<and> \<not> map_has (pendingAuth (snd (invalidateSession sid st))) sid
   \<and> success (fst (invalidateSession sid (snd (invalidateSession sid st)))) = True
   \<and> snd (invalidateSession sid (snd (invalidateSession sid st))) = snd (invalidateSession sid st)"
  by (simp add: invalidateSession_def map_delete_idem)


end
